theory Spec2Isabelle
  imports Main
begin

chapter \<open>The calendar and task client, \<^verbatim>\<open>frontend/src/App.js\<close>\<close>

text \<open>
  A model of the React client: the auth provider and the top-level \<^verbatim>\<open>App\<close>, the task
  form, and the month grid of the calendar view, with the JavaScript \<^verbatim>\<open>Date\<close> functions
  they rest on. Component state is passed explicitly, the answers of the backend are
  arguments, and an exception is a value. The definitions come first; the properties
  follow, one section for each part.
\<close>

section \<open>The auth provider of \<^verbatim>\<open>frontend/src/App.js\<close>\<close>

text \<open>
  \<^verbatim>\<open>AuthProvider\<close> holds two pieces of React state, \<^verbatim>\<open>user\<close> (initially \<^verbatim>\<open>null\<close>) and
  \<^verbatim>\<open>loading\<close> (initially \<^verbatim>\<open>true\<close>). Its functions talk to the backend through axios and
  to the browser through \<^verbatim>\<open>window.location\<close> and \<^verbatim>\<open>window.history\<close>. The model passes the
  state explicitly; the browser's location is part of it, and so is a trace of the
  effects performed, in the order the code performs them. An axios call either resolves
  with the response data or rejects, so its outcome is a value of a sum type.
\<close>

text \<open>
  What axios hands over as \<^verbatim>\<open>response.data\<close> is the parsed body: a JSON value, the empty
  string for an empty body. The provider stores it in \<^verbatim>\<open>user\<close> unchecked. Numbers are
  modelled as integers. A user as the backend describes it is an object with the fields
  \<^verbatim>\<open>id\<close>, \<^verbatim>\<open>email\<close>, \<^verbatim>\<open>name\<close> and \<^verbatim>\<open>picture\<close>.
\<close>

datatype json =
    JNull
  | JBool bool
  | JNumber int
  | JString string
  | JArray "json list"
  | JObject "(string \<times> json) list"

text \<open>\<^verbatim>\<open>ToBoolean\<close>, the test of \<^verbatim>\<open>user ? ... : ...\<close>: every object and array is truthy.\<close>

fun ToBoolean :: "json \<Rightarrow> bool" where
  "ToBoolean JNull = False"
| "ToBoolean (JBool b) = b"
| "ToBoolean (JNumber n) = (n \<noteq> 0)"
| "ToBoolean (JString s) = (s \<noteq> [])"
| "ToBoolean (JArray xs) = True"
| "ToBoolean (JObject fields) = True"

fun is_object :: "json \<Rightarrow> bool" where
  "is_object (JObject fields) = True"
| "is_object _ = False"

definition User :: "string \<Rightarrow> string \<Rightarrow> string \<Rightarrow> string \<Rightarrow> json" where
  "User uid mail nm pic =
     JObject [(''id'', JString uid), (''email'', JString mail), (''name'', JString nm),
              (''picture'', JString pic)]"

datatype axios_error = NetworkError | HttpError nat

type_synonym 'a response = "axios_error + 'a"

record location =
  pathname :: string
  search :: string
  hash :: string

datatype effect =
    POST_auth_session string
  | GET_auth_me
  | POST_auth_logout
  | SetUser json
  | SetLoading bool
  | ReplaceState string
  | ConsoleError

record auth_state =
  user :: json
  loading :: bool
  window_location :: location
  trace :: "effect list"

text \<open>What the backend answers to the three auth requests.\<close>

record backend =
  auth_session :: "string \<Rightarrow> json response"
  auth_me :: "json response"
  auth_logout :: "unit response"

definition initial_auth_state :: "location \<Rightarrow> auth_state" where
  "initial_auth_state loc =
     \<lparr>user = JNull, loading = True, window_location = loc, trace = []\<rparr>"

definition perform :: "effect list \<Rightarrow> auth_state \<Rightarrow> auth_state" where
  "perform es st = st\<lparr>trace := trace st @ es\<rparr>"

definition setUser :: "json \<Rightarrow> auth_state \<Rightarrow> auth_state" where
  "setUser u st = perform [SetUser u] (st\<lparr>user := u\<rparr>)"

definition setLoading :: "bool \<Rightarrow> auth_state \<Rightarrow> auth_state" where
  "setLoading b st = perform [SetLoading b] (st\<lparr>loading := b\<rparr>)"

text \<open>
  \<^verbatim>\<open>window.history.replaceState({}, document.title, window.location.pathname)\<close>: the
  new URL is the path alone, so query and fragment are gone.
\<close>

definition replaceState :: "string \<Rightarrow> auth_state \<Rightarrow> auth_state" where
  "replaceState url st =
     perform [ReplaceState url]
       (st\<lparr>window_location := \<lparr>pathname = url, search = [], hash = []\<rparr>\<rparr>)"

text \<open>\<^verbatim>\<open>logout\<close>: both the \<^verbatim>\<open>try\<close> branch and the \<^verbatim>\<open>catch\<close> branch end in \<^verbatim>\<open>setUser(null)\<close>.\<close>

definition logout :: "backend \<Rightarrow> auth_state \<Rightarrow> auth_state" where
  "logout be st =
     (let st1 = perform [POST_auth_logout] st in
      case auth_logout be of
        Inr _ \<Rightarrow> setUser JNull st1
      | Inl error \<Rightarrow> setUser JNull (perform [ConsoleError] st1))"

text \<open>
  \<^verbatim>\<open>processSession\<close> returns the response data or rethrows; the state it leaves behind
  is returned in both cases.
\<close>

definition processSession :: "backend \<Rightarrow> string \<Rightarrow> auth_state \<Rightarrow> json response \<times> auth_state" where
  "processSession be sessionId st =
     (let st1 = perform [POST_auth_session sessionId] st in
      case auth_session be sessionId of
        Inr data \<Rightarrow> (Inr data, setUser data st1)
      | Inl error \<Rightarrow> (Inl error, perform [ConsoleError] st1))"

definition checkAuth :: "backend \<Rightarrow> auth_state \<Rightarrow> auth_state" where
  "checkAuth be st =
     (let st1 = perform [GET_auth_me] st in
      case auth_me be of
        Inr data \<Rightarrow> setUser data st1
      | Inl error \<Rightarrow> setUser JNull st1)"

text \<open>
  \<^verbatim>\<open>hash.match(/session_id=([^&]+)/)\<close>: the leftmost position at which the literal
  \<^verbatim>\<open>session_id=\<close> is followed by at least one character other than \<^verbatim>\<open>&\<close>; the group is
  the longest run of such characters. The result is the group, or \<^verbatim>\<open>null\<close>.
\<close>

fun strip_prefix :: "string \<Rightarrow> string \<Rightarrow> string option" where
  "strip_prefix [] s = Some s"
| "strip_prefix (p # ps) [] = None"
| "strip_prefix (p # ps) (c # cs) = (if p = c then strip_prefix ps cs else None)"

definition match_here :: "string \<Rightarrow> string option" where
  "match_here s =
     (case strip_prefix ''session_id='' s of
        None \<Rightarrow> None
      | Some rest \<Rightarrow>
          (let captured = takeWhile (\<lambda>c. c \<noteq> CHR ''&'') rest
           in if captured = [] then None else Some captured))"

fun sessionIdMatch :: "string \<Rightarrow> string option" where
  "sessionIdMatch [] = None"
| "sessionIdMatch (c # cs) =
     (case match_here (c # cs) of
        Some captured \<Rightarrow> Some captured
      | None \<Rightarrow> sessionIdMatch cs)"

text \<open>
  \<^verbatim>\<open>initAuth\<close>, run once by the effect hook. The URL is cleaned inside the \<^verbatim>\<open>try\<close>, after
  the awaited \<^verbatim>\<open>processSession\<close>: a rejection skips it and lands in the \<^verbatim>\<open>catch\<close>.
\<close>

definition initAuth :: "backend \<Rightarrow> auth_state \<Rightarrow> auth_state" where
  "initAuth be st =
     (let st' =
        (case sessionIdMatch (hash (window_location st)) of
           Some sessionId \<Rightarrow>
             (case processSession be sessionId st of
                (Inr _, st1) \<Rightarrow> replaceState (pathname (window_location st1)) st1
              | (Inl error, st1) \<Rightarrow> perform [ConsoleError] st1)
         | None \<Rightarrow> checkAuth be st)
      in setLoading False st')"

text \<open>
  \<^verbatim>\<open>App\<close> renders one of three elements from \<^verbatim>\<open>user\<close> and \<^verbatim>\<open>loading\<close>; the last line,
  \<^verbatim>\<open>return user ? <Dashboard /> : <LoginPage />\<close>, tests whether \<^verbatim>\<open>user\<close> is truthy.
\<close>

datatype element = LoadingScreen | Dashboard | LoginPage

definition App :: "auth_state \<Rightarrow> element" where
  "App st =
     (if loading st then LoadingScreen
      else if ToBoolean (user st) then Dashboard else LoginPage)"

text \<open>
  The three states the specification names, and the state a pair of \<^verbatim>\<open>user\<close> and
  \<^verbatim>\<open>loading\<close> stands for in the eyes of \<^verbatim>\<open>App\<close>.
\<close>

datatype ui_state = Loading | AuthenticatedAs json | Anonymous

definition ui_state_of :: "auth_state \<Rightarrow> ui_state" where
  "ui_state_of st =
     (if loading st then Loading
      else if ToBoolean (user st) then AuthenticatedAs (user st) else Anonymous)"

text \<open>
  The life of the provider: \<^verbatim>\<open>initAuth\<close> runs once on mount, and from then on the
  components below call \<^verbatim>\<open>logout\<close> and \<^verbatim>\<open>checkAuth\<close>, the two functions of the context
  value that write the state (\<^verbatim>\<open>login\<close> leaves the page). The backend may answer each
  call differently, so every call comes with the answers it meets.
\<close>

datatype auth_call = Call_logout | Call_checkAuth

fun call :: "auth_call \<times> backend \<Rightarrow> auth_state \<Rightarrow> auth_state" where
  "call (Call_logout, be) st = logout be st"
| "call (Call_checkAuth, be) st = checkAuth be st"

definition AuthProvider :: "location \<Rightarrow> backend \<Rightarrow> (auth_call \<times> backend) list \<Rightarrow> auth_state" where
  "AuthProvider loc be calls = fold call calls (initAuth be (initial_auth_state loc))"

text \<open>A backend whose successful answers to the two user requests are objects.\<close>

definition answers_objects :: "backend \<Rightarrow> bool" where
  "answers_objects be \<longleftrightarrow>
     (\<forall>sessionId. case auth_session be sessionId of Inr data \<Rightarrow> is_object data | Inl error \<Rightarrow> True)
     \<and> (case auth_me be of Inr data \<Rightarrow> is_object data | Inl error \<Rightarrow> True)"

definition http_requests :: "effect list \<Rightarrow> effect list" where
  "http_requests es =
     filter (\<lambda>e. case e of POST_auth_session _ \<Rightarrow> True | GET_auth_me \<Rightarrow> True
                | POST_auth_logout \<Rightarrow> True | _ \<Rightarrow> False) es"



section \<open>Time values and dates\<close>

text \<open>
  The form and the calendar compute with JavaScript \<^verbatim>\<open>Date\<close> objects. A date holds a time
  value, the milliseconds since 1 January 1970 UTC, or is invalid. The functions below
  are those of the ECMAScript specification of \<^verbatim>\<open>Date\<close>, under their names there.
\<close>

definition msPerDay :: int where "msPerDay = 86400000"
definition msPerHour :: int where "msPerHour = 3600000"
definition msPerMinute :: int where "msPerMinute = 60000"
definition msPerSecond :: int where "msPerSecond = 1000"

definition Day :: "int \<Rightarrow> int" where
  "Day t = t div msPerDay"

definition TimeWithinDay :: "int \<Rightarrow> int" where
  "TimeWithinDay t = t mod msPerDay"

definition DaysInYear :: "int \<Rightarrow> int" where
  "DaysInYear y =
     (if y mod 4 \<noteq> 0 then 365 else if y mod 100 \<noteq> 0 then 366
      else if y mod 400 \<noteq> 0 then 365 else 366)"

definition DayFromYear :: "int \<Rightarrow> int" where
  "DayFromYear y = 365 * (y - 1970) + (y - 1969) div 4 - (y - 1901) div 100 + (y - 1601) div 400"

definition TimeFromYear :: "int \<Rightarrow> int" where
  "TimeFromYear y = msPerDay * DayFromYear y"

text \<open>
  \<^verbatim>\<open>YearFromTime(t)\<close> is the largest \<open>y\<close> with \<^verbatim>\<open>TimeFromYear(y)\<close> at most \<open>t\<close>. It is computed
  from an estimate that is right or one too small, since a year has 365.2425 days on
  average; \<open>YearFromTime_spec\<close> and \<open>YearFromDay_unique\<close> below show that this is the year
  the specification means.
\<close>

definition YearFromDay :: "int \<Rightarrow> int" where
  "YearFromDay d =
     (let y = 1970 + (400 * d - 589) div 146097
      in if DayFromYear (y + 1) \<le> d then y + 1 else y)"

definition YearFromTime :: "int \<Rightarrow> int" where
  "YearFromTime t = YearFromDay (Day t)"

definition InLeapYear :: "int \<Rightarrow> int" where
  "InLeapYear t = (if DaysInYear (YearFromTime t) = 366 then 1 else 0)"

definition DayWithinYear :: "int \<Rightarrow> int" where
  "DayWithinYear t = Day t - DayFromYear (YearFromTime t)"

definition MonthFromTime :: "int \<Rightarrow> int" where
  "MonthFromTime t =
     (let d = DayWithinYear t; l = InLeapYear t in
      if d < 31 then 0
      else if d < 59 + l then 1
      else if d < 90 + l then 2
      else if d < 120 + l then 3
      else if d < 151 + l then 4
      else if d < 181 + l then 5
      else if d < 212 + l then 6
      else if d < 243 + l then 7
      else if d < 273 + l then 8
      else if d < 304 + l then 9
      else if d < 334 + l then 10
      else 11)"

definition DateFromTime :: "int \<Rightarrow> int" where
  "DateFromTime t =
     (let d = DayWithinYear t; l = InLeapYear t; m = MonthFromTime t in
      if m = 0 then d + 1
      else if m = 1 then d - 30
      else if m = 2 then d - 58 - l
      else if m = 3 then d - 89 - l
      else if m = 4 then d - 119 - l
      else if m = 5 then d - 150 - l
      else if m = 6 then d - 180 - l
      else if m = 7 then d - 211 - l
      else if m = 8 then d - 242 - l
      else if m = 9 then d - 272 - l
      else if m = 10 then d - 303 - l
      else d - 333 - l)"

definition WeekDay :: "int \<Rightarrow> int" where
  "WeekDay t = (Day t + 4) mod 7"

definition HourFromTime :: "int \<Rightarrow> int" where
  "HourFromTime t = (t div msPerHour) mod 24"

definition MinFromTime :: "int \<Rightarrow> int" where
  "MinFromTime t = (t div msPerMinute) mod 60"

definition SecFromTime :: "int \<Rightarrow> int" where
  "SecFromTime t = (t div msPerSecond) mod 60"

definition msFromTime :: "int \<Rightarrow> int" where
  "msFromTime t = t mod msPerSecond"

definition MakeTime :: "int \<Rightarrow> int \<Rightarrow> int \<Rightarrow> int \<Rightarrow> int" where
  "MakeTime hour m sec ms = hour * msPerHour + m * msPerMinute + sec * msPerSecond + ms"

text \<open>
  \<^verbatim>\<open>MakeDay(year, month, date)\<close> finds the day number of the first day of the month
  \<open>month\<close> counted from January of \<open>year\<close>, and adds \<open>date - 1\<close>. \<open>DayFromMonth\<close> is
  the number of days of a year before its month \<open>mn\<close>, with \<open>l\<close> one in a leap year.
\<close>

definition DayFromMonth :: "int \<Rightarrow> int \<Rightarrow> int" where
  "DayFromMonth mn l =
     (if mn = 0 then 0
      else if mn = 1 then 31
      else if mn = 2 then 59 + l
      else if mn = 3 then 90 + l
      else if mn = 4 then 120 + l
      else if mn = 5 then 151 + l
      else if mn = 6 then 181 + l
      else if mn = 7 then 212 + l
      else if mn = 8 then 243 + l
      else if mn = 9 then 273 + l
      else if mn = 10 then 304 + l
      else 334 + l)"

definition MakeDay :: "int \<Rightarrow> int \<Rightarrow> int \<Rightarrow> int" where
  "MakeDay year month date =
     (let ym = year + month div 12;
          mn = month mod 12
      in DayFromYear ym + DayFromMonth mn (if DaysInYear ym = 366 then 1 else 0) + date - 1)"

definition MakeDate :: "int \<Rightarrow> int \<Rightarrow> int" where
  "MakeDate day time = day * msPerDay + time"

text \<open>\<^verbatim>\<open>TimeClip\<close>: a time value is at most 8.64e15 milliseconds from the epoch.\<close>

definition TimeClip :: "int \<Rightarrow> int option" where
  "TimeClip t = (if \<bar>t\<bar> > 8640000000000000 then None else Some t)"

text \<open>The number of days of month \<open>m\<close> (0 for January) of year \<open>y\<close>.\<close>

definition DaysInMonth :: "int \<Rightarrow> int \<Rightarrow> int" where
  "DaysInMonth y m =
     (if m = 1 then (if DaysInYear y = 366 then 29 else 28)
      else if m = 3 \<or> m = 5 \<or> m = 8 \<or> m = 10 then 30
      else 31)"


subsection \<open>Date objects\<close>

datatype Date = Date int | Invalid_Date

text \<open>
  The host's time zone is the function \<^verbatim>\<open>LocalTZA(t, isUTC)\<close> of the specification: the
  offset of local time from UTC in milliseconds, at the instant \<open>t\<close> when \<open>isUTC\<close> is true
  and for the local time value \<open>t\<close> when it is false. The offset depends on \<open>t\<close>, since a
  zone changes its offset with daylight saving time and with its rules.
\<close>

type_synonym zone = "int \<Rightarrow> bool \<Rightarrow> int"

definition LocalTime :: "zone \<Rightarrow> int \<Rightarrow> int" where
  "LocalTime LocalTZA t = t + LocalTZA t True"

definition UTC :: "zone \<Rightarrow> int \<Rightarrow> int" where
  "UTC LocalTZA t = t - LocalTZA t False"

text \<open>
  A zone as its rules give it: the offset it starts with, and its transitions in
  ascending order, each the instant of the change and the offset from then on. A local
  time that a transition skips or repeats is read with the offset before the
  transition, as the specification of \<^verbatim>\<open>LocalTZA\<close> demands.
\<close>

fun offset_at_instant :: "int \<Rightarrow> (int \<times> int) list \<Rightarrow> int \<Rightarrow> int" where
  "offset_at_instant offset [] t = offset"
| "offset_at_instant offset ((transition, offset') # rules) t =
     (if t < transition then offset else offset_at_instant offset' rules t)"

fun offset_for_local :: "int \<Rightarrow> (int \<times> int) list \<Rightarrow> int \<Rightarrow> int" where
  "offset_for_local offset [] t = offset"
| "offset_for_local offset ((transition, offset') # rules) t =
     (if t < transition + max offset offset' then offset
      else offset_for_local offset' rules t)"

definition zone_of :: "int \<Rightarrow> (int \<times> int) list \<Rightarrow> zone" where
  "zone_of offset rules t isUTC =
     (if isUTC then offset_at_instant offset rules t else offset_for_local offset rules t)"

text \<open>
  Four hosts. \<^verbatim>\<open>Etc/UTC\<close>; \<^verbatim>\<open>Etc/GMT-1\<close>, always one hour east of UTC;
  \<^verbatim>\<open>America/New_York\<close> with its rules of 2024, five hours west of UTC and four from
  10 March 07:00 UTC to 3 November 06:00 UTC; and \<^verbatim>\<open>Pacific/Apia\<close> with its rules of 2011,
  which went from ten hours west of UTC to fourteen hours east at the end of
  29 December, 30 December 10:00 UTC, and so had no 30 December.
\<close>

definition Etc_UTC :: zone where
  "Etc_UTC = zone_of 0 []"

definition Etc_GMT_minus_1 :: zone where
  "Etc_GMT_minus_1 = zone_of 3600000 []"

definition America_New_York :: zone where
  "America_New_York =
     zone_of (- 18000000) [(1710054000000, - 14400000), (1730613600000, - 18000000)]"

definition Pacific_Apia :: zone where
  "Pacific_Apia = zone_of (- 36000000) [(1325239200000, 50400000)]"

text \<open>
  \<^verbatim>\<open>new Date(year, month, date)\<close>: local time; a year from 0 to 99 stands for 1900 to
  1999; an argument that is \<^verbatim>\<open>NaN\<close> (\<open>None\<close>) or a result out of range gives an invalid
  date.
\<close>

definition new_Date :: "zone \<Rightarrow> int option \<Rightarrow> int option \<Rightarrow> int option \<Rightarrow> Date" where
  "new_Date tz year month date =
     (case (year, month, date) of
        (Some y, Some m, Some dt) \<Rightarrow>
          (let yr = (if 0 \<le> y \<and> y \<le> 99 then 1900 + y else y);
               finalDate = MakeDate (MakeDay yr m dt) (MakeTime 0 0 0 0)
           in case TimeClip (UTC tz finalDate) of
                Some tv \<Rightarrow> Date tv
              | None \<Rightarrow> Invalid_Date)
      | _ \<Rightarrow> Invalid_Date)"

text \<open>The getters read local time and give \<^verbatim>\<open>NaN\<close> (\<open>None\<close>) on an invalid date.\<close>

definition getFullYear :: "zone \<Rightarrow> Date \<Rightarrow> int option" where
  "getFullYear tz d =
     (case d of Date t \<Rightarrow> Some (YearFromTime (LocalTime tz t)) | Invalid_Date \<Rightarrow> None)"

definition getMonth :: "zone \<Rightarrow> Date \<Rightarrow> int option" where
  "getMonth tz d =
     (case d of Date t \<Rightarrow> Some (MonthFromTime (LocalTime tz t)) | Invalid_Date \<Rightarrow> None)"

definition getDate :: "zone \<Rightarrow> Date \<Rightarrow> int option" where
  "getDate tz d =
     (case d of Date t \<Rightarrow> Some (DateFromTime (LocalTime tz t)) | Invalid_Date \<Rightarrow> None)"

definition getDay :: "zone \<Rightarrow> Date \<Rightarrow> int option" where
  "getDay tz d =
     (case d of Date t \<Rightarrow> Some (WeekDay (LocalTime tz t)) | Invalid_Date \<Rightarrow> None)"

subsection \<open>The month grid\<close>

text \<open>
  The two loops of \<^verbatim>\<open>getDaysInMonth\<close>. A bound that is \<^verbatim>\<open>NaN\<close> makes the loop condition
  false at once, so the loop is entered only with a number.
\<close>

function push_nulls :: "int \<Rightarrow> int \<Rightarrow> Date option list \<Rightarrow> Date option list" where
  "push_nulls i startingDayOfWeek days =
     (if i < startingDayOfWeek then push_nulls (i + 1) startingDayOfWeek (days @ [None])
      else days)"
  by pat_completeness auto
termination
  by (relation "measure (\<lambda>(i, w, days). nat (w - i))") auto

function push_days ::
  "zone \<Rightarrow> int option \<Rightarrow> int option \<Rightarrow> int \<Rightarrow> int \<Rightarrow> Date option list \<Rightarrow> Date option list" where
  "push_days tz year month i daysInMonth days =
     (if i \<le> daysInMonth
      then push_days tz year month (i + 1) daysInMonth
             (days @ [Some (new_Date tz year month (Some i))])
      else days)"
  by pat_completeness auto
termination
  by (relation "measure (\<lambda>(tz, year, month, i, n, days). nat (n + 1 - i))") auto

declare push_nulls.simps [simp del] push_days.simps [simp del]

definition getDaysInMonth :: "zone \<Rightarrow> Date \<Rightarrow> Date option list" where
  "getDaysInMonth tz date =
     (let year = getFullYear tz date;
          month = getMonth tz date;
          firstDay = new_Date tz year month (Some 1);
          lastDay = new_Date tz year (map_option (\<lambda>m. m + 1) month) (Some 0);
          daysInMonth = getDate tz lastDay;
          startingDayOfWeek = getDay tz firstDay;
          days = [];
          days = (case startingDayOfWeek of Some w \<Rightarrow> push_nulls 0 w days | None \<Rightarrow> days);
          days = (case daysInMonth of Some n \<Rightarrow> push_days tz year month 1 n days
                  | None \<Rightarrow> days)
      in days)"

text \<open>
  \<^verbatim>\<open>nextMonth\<close> and \<^verbatim>\<open>prevMonth\<close> move the month shown:
  \<^verbatim>\<open>new Date(currentMonth.getFullYear(), currentMonth.getMonth() + 1)\<close>, where the day
  of the month defaults to 1.
\<close>

definition nextMonth :: "zone \<Rightarrow> Date \<Rightarrow> Date" where
  "nextMonth tz currentMonth =
     new_Date tz (getFullYear tz currentMonth)
       (map_option (\<lambda>m. m + 1) (getMonth tz currentMonth)) (Some 1)"

definition prevMonth :: "zone \<Rightarrow> Date \<Rightarrow> Date" where
  "prevMonth tz currentMonth =
     new_Date tz (getFullYear tz currentMonth)
       (map_option (\<lambda>m. m - 1) (getMonth tz currentMonth)) (Some 1)"


subsection \<open>Date strings\<close>

text \<open>
  \<^verbatim>\<open>ToZeroPaddedDecimalString(n, minLength)\<close>: the decimal digits of \<open>n\<close>, padded on the
  left with zeros to at least \<open>minLength\<close> characters.
\<close>

definition digit :: "nat \<Rightarrow> char" where
  "digit n = char_of (48 + n)"

fun digits :: "nat \<Rightarrow> string" where
  "digits n = (if n < 10 then [digit n] else digits (n div 10) @ [digit (n mod 10)])"

declare digits.simps [simp del]

definition padStart :: "nat \<Rightarrow> char \<Rightarrow> string \<Rightarrow> string" where
  "padStart targetLength c s = replicate (targetLength - length s) c @ s"

definition ToZeroPaddedDecimalString :: "int \<Rightarrow> nat \<Rightarrow> string" where
  "ToZeroPaddedDecimalString n minLength = padStart minLength (CHR ''0'') (digits (nat n))"

datatype js_error = RangeError

text \<open>
  \<^verbatim>\<open>Date.prototype.toISOString\<close>: throws a \<^verbatim>\<open>RangeError\<close> on an invalid date; otherwise
  the UTC fields as \<^verbatim>\<open>YYYY-MM-DDTHH:mm:ss.sssZ\<close>, the year with a sign and six digits when
  it is outside 0 to 9999.
\<close>

definition ISOString :: "int \<Rightarrow> string" where
  "ISOString tv =
     (let yv = YearFromTime tv;
          year = (if 0 \<le> yv \<and> yv \<le> 9999 then ToZeroPaddedDecimalString yv 4
                  else (if 0 < yv then ''+'' else ''-'') @ ToZeroPaddedDecimalString \<bar>yv\<bar> 6)
      in year @ ''-'' @ ToZeroPaddedDecimalString (MonthFromTime tv + 1) 2
           @ ''-'' @ ToZeroPaddedDecimalString (DateFromTime tv) 2
           @ ''T'' @ ToZeroPaddedDecimalString (HourFromTime tv) 2
           @ '':'' @ ToZeroPaddedDecimalString (MinFromTime tv) 2
           @ '':'' @ ToZeroPaddedDecimalString (SecFromTime tv) 2
           @ ''.'' @ ToZeroPaddedDecimalString (msFromTime tv) 3
           @ ''Z'')"

definition toISOString :: "Date \<Rightarrow> js_error + string" where
  "toISOString d = (case d of Date tv \<Rightarrow> Inr (ISOString tv) | Invalid_Date \<Rightarrow> Inl RangeError)"

text \<open>\<^verbatim>\<open>s.slice(0, 16)\<close>: the first sixteen code units.\<close>

definition slice_0_16 :: "string \<Rightarrow> string" where
  "slice_0_16 s = take 16 s"

text \<open>
  \<^verbatim>\<open>Date.prototype.toDateString\<close>: weekday and month names, the day with two digits and
  the year with at least four, in local time.
\<close>

definition weekdayName :: "int \<Rightarrow> string" where
  "weekdayName w = [''Sun'', ''Mon'', ''Tue'', ''Wed'', ''Thu'', ''Fri'', ''Sat''] ! nat w"

definition monthName :: "int \<Rightarrow> string" where
  "monthName m = [''Jan'', ''Feb'', ''Mar'', ''Apr'', ''May'', ''Jun'',
                  ''Jul'', ''Aug'', ''Sep'', ''Oct'', ''Nov'', ''Dec''] ! nat m"

definition DateString :: "int \<Rightarrow> string" where
  "DateString t =
     (let yv = YearFromTime t;
          yearSign = (if 0 \<le> yv then [] else ''-'');
          paddedYear = ToZeroPaddedDecimalString \<bar>yv\<bar> 4
      in weekdayName (WeekDay t) @ '' '' @ monthName (MonthFromTime t) @ '' ''
           @ ToZeroPaddedDecimalString (DateFromTime t) 2 @ '' '' @ yearSign @ paddedYear)"

definition toDateString :: "zone \<Rightarrow> Date \<Rightarrow> string" where
  "toDateString tz d =
     (case d of Date tv \<Rightarrow> DateString (LocalTime tz tv) | Invalid_Date \<Rightarrow> ''Invalid Date'')"

text \<open>
  \<^verbatim>\<open>new Date(string)\<close> for the date-time forms of the ECMAScript format with a four-digit
  year and no offset, \<^verbatim>\<open>YYYY-MM-DDTHH:mm\<close>, \<^verbatim>\<open>YYYY-MM-DDTHH:mm:ss\<close> and the latter with a
  fraction of the second, which are read as local time, and for the same forms followed
  by \<^verbatim>\<open>Z\<close>, which are read as UTC. These are the strings the form holds: the first sixteen
  characters of \<^verbatim>\<open>toISOString\<close> and the values of a \<^verbatim>\<open>datetime-local\<close> input. The fraction
  has one digit or more, of which the first three count. As in V8, a day of the month up
  to 31 is taken in every month and counts on into the next month, and the hour 24 is
  taken with minute, second and fraction zero, as the end of the day. Every other string
  gives an invalid date here: what an engine makes of strings outside the format is its
  own choice and is not modelled.
\<close>

definition digit_value :: "char \<Rightarrow> int option" where
  "digit_value c =
     (let n = (of_char c :: nat) in if 48 \<le> n \<and> n \<le> 57 then Some (int n - 48) else None)"

fun decimal :: "int \<Rightarrow> string \<Rightarrow> int option" where
  "decimal acc [] = Some acc"
| "decimal acc (c # cs) =
     (case digit_value c of Some d \<Rightarrow> decimal (10 * acc + d) cs | None \<Rightarrow> None)"

definition substring :: "string \<Rightarrow> nat \<Rightarrow> nat \<Rightarrow> string" where
  "substring s i j = take (j - i) (drop i s)"

definition fraction_ms :: "string \<Rightarrow> int option" where
  "fraction_ms f =
     (case decimal 0 f of Some v \<Rightarrow> decimal 0 (take 3 (f @ ''00'')) | None \<Rightarrow> None)"

definition parse_fields :: "string \<Rightarrow> (int \<times> int \<times> int \<times> int \<times> int \<times> int \<times> int) option" where
  "parse_fields s =
     (let n = length s in
      if (n = 16 \<or> n = 19 \<or> 21 \<le> n)
         \<and> s ! 4 = CHR ''-'' \<and> s ! 7 = CHR ''-'' \<and> s ! 10 = CHR ''T'' \<and> s ! 13 = CHR '':''
         \<and> (16 < n \<longrightarrow> s ! 16 = CHR '':'') \<and> (19 < n \<longrightarrow> s ! 19 = CHR ''.'')
      then
        (case (decimal 0 (substring s 0 4), decimal 0 (substring s 5 7),
               decimal 0 (substring s 8 10), decimal 0 (substring s 11 13),
               decimal 0 (substring s 14 16),
               if 16 < n then decimal 0 (substring s 17 19) else Some 0,
               if 19 < n then fraction_ms (drop 20 s) else Some 0) of
           (Some y, Some mo, Some d, Some h, Some mi, Some sec, Some ms) \<Rightarrow>
             if 1 \<le> mo \<and> mo \<le> 12 \<and> 1 \<le> d \<and> d \<le> 31 \<and> mi \<le> 59 \<and> sec \<le> 59
                \<and> (h \<le> 23 \<or> h = 24 \<and> mi = 0 \<and> sec = 0 \<and> ms = 0)
             then Some (y, mo, d, h, mi, sec, ms) else None
         | _ \<Rightarrow> None)
      else None)"

definition Date_parse :: "zone \<Rightarrow> string \<Rightarrow> Date" where
  "Date_parse tz s =
     (let utc = (s \<noteq> [] \<and> last s = CHR ''Z'');
          body = (if utc then butlast s else s)
      in case parse_fields body of
           Some (y, mo, d, h, mi, sec, ms) \<Rightarrow>
             (let tv = MakeDate (MakeDay y (mo - 1) d) (MakeTime h mi sec ms)
              in case TimeClip (if utc then tv else UTC tz tv) of
                   Some t \<Rightarrow> Date t
                 | None \<Rightarrow> Invalid_Date)
         | None \<Rightarrow> Invalid_Date)"


subsection \<open>Events of a day\<close>

text \<open>
  A calendar event as the view uses it; \<open>start_time\<close> is the date that
  \<^verbatim>\<open>new Date(event.start_time)\<close> makes of the string the backend sent.
\<close>

record CalendarEvent =
  title :: string
  start_time :: Date
  all_day :: bool

definition getEventsForDate :: "zone \<Rightarrow> CalendarEvent list \<Rightarrow> Date \<Rightarrow> CalendarEvent list" where
  "getEventsForDate tz events date =
     filter (\<lambda>event. let eventDate = start_time event
                      in toDateString tz eventDate = toDateString tz date) events"

text \<open>
  What a day cell of the grid shows of its events: the titles of
  \<^verbatim>\<open>getEventsForDate(day).slice(0, 2)\<close>, and the number of the \<^verbatim>\<open>+k more\<close> line when
  \<^verbatim>\<open>getEventsForDate(day).length > 2\<close>. A cell whose day is \<^verbatim>\<open>null\<close> shows nothing.
\<close>

record day_events =
  shown :: "string list"
  more_count :: "nat option"

definition render_day_events :: "zone \<Rightarrow> CalendarEvent list \<Rightarrow> Date \<Rightarrow> day_events" where
  "render_day_events tz events day =
     \<lparr>shown = map title (take 2 (getEventsForDate tz events day)),
      more_count = (if length (getEventsForDate tz events day) > 2
              then Some (length (getEventsForDate tz events day) - 2) else None)\<rparr>"

definition render_cell :: "zone \<Rightarrow> CalendarEvent list \<Rightarrow> Date option \<Rightarrow> day_events option" where
  "render_cell tz events day =
     (case day of Some d \<Rightarrow> Some (render_day_events tz events d) | None \<Rightarrow> None)"

text \<open>
  Two dates fall on the same calendar day when both are valid and have the same local
  year, month and day of the month.
\<close>

definition same_calendar_day :: "zone \<Rightarrow> Date \<Rightarrow> Date \<Rightarrow> bool" where
  "same_calendar_day tz a b \<longleftrightarrow>
     getFullYear tz a \<noteq> None \<and> getFullYear tz a = getFullYear tz b
     \<and> getMonth tz a = getMonth tz b \<and> getDate tz a = getDate tz b"


section \<open>The task form\<close>

text \<open>
  JavaScript strings are modelled by \<^typ>\<open>string\<close>; a \<^typ>\<open>char\<close> stands for a code unit
  below 256. \<^verbatim>\<open>String.prototype.trim\<close> removes white space and line terminators from
  both ends; below 256 these are tab, line feed, vertical tab, form feed, carriage
  return, space and the no-break space.
\<close>

definition isWhiteSpace :: "char \<Rightarrow> bool" where
  "isWhiteSpace c \<longleftrightarrow> (of_char c :: nat) \<in> {9, 10, 11, 12, 13, 32, 160}"

definition trim :: "string \<Rightarrow> string" where
  "trim s = rev (dropWhile isWhiteSpace (rev (dropWhile isWhiteSpace s)))"

text \<open>A string is truthy when it is not empty.\<close>

definition truthy :: "string \<Rightarrow> bool" where
  "truthy s \<longleftrightarrow> s \<noteq> []"

text \<open>
  \<^verbatim>\<open>[...new Set(xs)]\<close>: a \<^verbatim>\<open>Set\<close> keeps its elements in insertion order, and adding an
  element it already holds changes nothing. The set under construction is the list of
  its elements in that order.
\<close>

definition Set_add :: "'a list \<Rightarrow> 'a \<Rightarrow> 'a list" where
  "Set_add s x = (if x \<in> set s then s else s @ [x])"

definition new_Set :: "'a list \<Rightarrow> 'a list" where
  "new_Set xs = foldl Set_add [] xs"

definition defaultCategories :: "string list" where
  "defaultCategories = [''General'', ''Work'', ''Personal'', ''Health'', ''Shopping'', ''Finance'']"

definition priorities :: "string list" where
  "priorities = [''Low'', ''Medium'', ''High'']"

text \<open>
  The fields of a task as the form handles them. In \<^verbatim>\<open>formData\<close> the two dates are the
  strings of the \<^verbatim>\<open>datetime-local\<close> inputs; in the data handed to \<^verbatim>\<open>onSubmit\<close> they are
  ISO strings or \<^verbatim>\<open>null\<close>; in the task being edited a date is \<^verbatim>\<open>None\<close> when the field is
  missing, \<^verbatim>\<open>null\<close> or empty, and otherwise the date that \<^verbatim>\<open>new Date\<close> makes of it. A
  text field of the task that is missing or \<^verbatim>\<open>null\<close> is the empty string, which \<^verbatim>\<open>||\<close>
  treats alike.
\<close>

record 'd task_fields =
  title :: string
  description :: string
  category :: string
  priority :: string
  due_date :: 'd
  reminder :: 'd

type_synonym formData = "string task_fields"
type_synonym submitData = "string option task_fields"
type_synonym Task = "Date option task_fields"

record TaskForm_state =
  formData :: formData
  availableCategories :: "string list"
  showNewCategory :: bool
  newCategory :: string

text \<open>
  \<^verbatim>\<open>TaskForm.fetchCategories\<close>, given the outcome of \<^verbatim>\<open>GET /api/tasks/categories\<close>: a
  rejection is logged and leaves the list as it is.
\<close>

definition TaskForm_fetchCategories :: "string list response \<Rightarrow> TaskForm_state \<Rightarrow> TaskForm_state" where
  "TaskForm_fetchCategories response st =
     (case response of
        Inr userCategories \<Rightarrow>
          (let allCategories = new_Set (defaultCategories @ userCategories)
           in st\<lparr>availableCategories := allCategories\<rparr>)
      | Inl error \<Rightarrow> st)"

text \<open>
  \<^verbatim>\<open>Dashboard.fetchCategories\<close> acts on the dashboard's own \<^verbatim>\<open>availableCategories\<close>; a
  rejection resets it to the defaults.
\<close>

definition Dashboard_fetchCategories :: "string list response \<Rightarrow> string list \<Rightarrow> string list" where
  "Dashboard_fetchCategories response availableCategories0 =
     (case response of
        Inr userCategories \<Rightarrow> new_Set (defaultCategories @ userCategories)
      | Inl error \<Rightarrow> [''General'', ''Work'', ''Personal'', ''Health'', ''Shopping'', ''Finance''])"

definition handleAddCategory :: "TaskForm_state \<Rightarrow> TaskForm_state" where
  "handleAddCategory st =
     (if truthy (trim (newCategory st)) \<and> trim (newCategory st) \<notin> set (availableCategories st)
      then
        (let updatedCategories = availableCategories st @ [trim (newCategory st)]
         in st\<lparr>availableCategories := updatedCategories,
                formData := (formData st)\<lparr>category := trim (newCategory st)\<rparr>,
                newCategory := [],
                showNewCategory := False\<rparr>)
      else st)"

text \<open>\<^verbatim>\<open>a || b\<close> on strings.\<close>

definition or_else :: "string \<Rightarrow> string \<Rightarrow> string" where
  "or_else a b = (if truthy a then a else b)"

text \<open>
  The initial value of a date input,
  \<^verbatim>\<open>task?.due_date ? new Date(task.due_date).toISOString().slice(0, 16) : ''\<close>.
\<close>

definition initial_date :: "Date option \<Rightarrow> js_error + string" where
  "initial_date v =
     (case v of
        Some d \<Rightarrow> (case toISOString d of Inr s \<Rightarrow> Inr (slice_0_16 s) | Inl e \<Rightarrow> Inl e)
      | None \<Rightarrow> Inr [])"

text \<open>
  The state of a form when it mounts, for a new task (\<open>None\<close>) or for the task being
  edited. An invalid date in the task makes \<^verbatim>\<open>toISOString\<close> throw while the component
  renders.
\<close>

definition TaskForm_init :: "Task option \<Rightarrow> js_error + TaskForm_state" where
  "TaskForm_init task =
     (case initial_date (Option.bind task due_date) of
        Inl e \<Rightarrow> Inl e
      | Inr due \<Rightarrow>
          (case initial_date (Option.bind task reminder) of
             Inl e \<Rightarrow> Inl e
           | Inr rem \<Rightarrow>
               Inr \<lparr>formData =
                      \<lparr>title = or_else (case task of Some t \<Rightarrow> title t | None \<Rightarrow> []) [],
                       description = or_else (case task of Some t \<Rightarrow> description t | None \<Rightarrow> []) [],
                       category = or_else (case task of Some t \<Rightarrow> category t | None \<Rightarrow> []) ''General'',
                       priority = or_else (case task of Some t \<Rightarrow> priority t | None \<Rightarrow> []) ''Medium'',
                       due_date = due,
                       reminder = rem\<rparr>,
                    availableCategories =
                      [''General'', ''Work'', ''Personal'', ''Health'', ''Shopping'', ''Finance''],
                    showNewCategory = False,
                    newCategory = []\<rparr>))"

text \<open>
  \<^verbatim>\<open>handleSubmit\<close>: a date field that is not empty is replaced by
  \<^verbatim>\<open>new Date(field).toISOString()\<close>, an empty one by \<^verbatim>\<open>null\<close>; the other fields are
  passed on as they are. The host's zone enters where \<^verbatim>\<open>new Date\<close> reads a
  string without offset as local time.
\<close>

definition submitted_date :: "zone \<Rightarrow> string \<Rightarrow> js_error + string option" where
  "submitted_date tz v =
     (if truthy v
      then (case toISOString (Date_parse tz v) of Inr s \<Rightarrow> Inr (Some s) | Inl e \<Rightarrow> Inl e)
      else Inr None)"

definition handleSubmit :: "zone \<Rightarrow> formData \<Rightarrow> js_error + submitData" where
  "handleSubmit tz fd =
     (case submitted_date tz (due_date fd) of
        Inl e \<Rightarrow> Inl e
      | Inr due \<Rightarrow>
          (case submitted_date tz (reminder fd) of
             Inl e \<Rightarrow> Inl e
           | Inr rem \<Rightarrow>
               Inr \<lparr>title = title fd, description = description fd, category = category fd,
                    priority = priority fd, due_date = due, reminder = rem\<rparr>))"

text \<open>
  Submitting the form: the title input carries \<^verbatim>\<open>required\<close>, so the browser blocks the
  submission, and \<^verbatim>\<open>handleSubmit\<close> is not called, while its value is the empty string.
  Otherwise \<^verbatim>\<open>handleSubmit\<close> runs and hands its data to \<^verbatim>\<open>onSubmit\<close>, or throws.
\<close>

datatype submit_outcome = Blocked | Threw js_error | onSubmit submitData

definition TaskForm_submit :: "zone \<Rightarrow> TaskForm_state \<Rightarrow> submit_outcome" where
  "TaskForm_submit tz st =
     (if title (formData st) = [] then Blocked
      else (case handleSubmit tz (formData st) of
              Inl e \<Rightarrow> Threw e
            | Inr submitData \<Rightarrow> onSubmit submitData))"

text \<open>
  What can happen to a mounted form: the user edits a field, uses the new-category
  row, or the categories request started on mount settles. \<open>ClickAdd\<close> stands for the Add
  button and for the Enter key in the new-category input, which both call
  \<^verbatim>\<open>handleAddCategory\<close>.
\<close>

datatype form_event =
    ChangeTitle string
  | ChangeDescription string
  | ChangeCategory string
  | ChangePriority string
  | ChangeDueDate string
  | ChangeReminder string
  | ChangeNewCategory string
  | ClickAdd
  | ClickCancelNewCategory
  | CategoriesSettled "string list response"

fun TaskForm_handle :: "form_event \<Rightarrow> TaskForm_state \<Rightarrow> TaskForm_state" where
  "TaskForm_handle (ChangeTitle v) st = st\<lparr>formData := (formData st)\<lparr>title := v\<rparr>\<rparr>"
| "TaskForm_handle (ChangeDescription v) st = st\<lparr>formData := (formData st)\<lparr>description := v\<rparr>\<rparr>"
| "TaskForm_handle (ChangeCategory v) st =
     (if v = ''_add_new_'' then st\<lparr>showNewCategory := True\<rparr>
      else st\<lparr>formData := (formData st)\<lparr>category := v\<rparr>\<rparr>)"
| "TaskForm_handle (ChangePriority v) st = st\<lparr>formData := (formData st)\<lparr>priority := v\<rparr>\<rparr>"
| "TaskForm_handle (ChangeDueDate v) st = st\<lparr>formData := (formData st)\<lparr>due_date := v\<rparr>\<rparr>"
| "TaskForm_handle (ChangeReminder v) st = st\<lparr>formData := (formData st)\<lparr>reminder := v\<rparr>\<rparr>"
| "TaskForm_handle (ChangeNewCategory v) st = st\<lparr>newCategory := v\<rparr>"
| "TaskForm_handle ClickAdd st = handleAddCategory st"
| "TaskForm_handle ClickCancelNewCategory st = st\<lparr>showNewCategory := False, newCategory := []\<rparr>"
| "TaskForm_handle (CategoriesSettled response) st = TaskForm_fetchCategories response st"

text \<open>
  The events the rendered form can emit: a \<^verbatim>\<open>select\<close> yields the value of one of its
  options, and the new-category row exists only while \<^verbatim>\<open>showNewCategory\<close> holds.
\<close>

fun offered :: "TaskForm_state \<Rightarrow> form_event \<Rightarrow> bool" where
  "offered st (ChangeCategory v) \<longleftrightarrow> v \<in> set (availableCategories st) \<or> v = ''_add_new_''"
| "offered st (ChangePriority v) \<longleftrightarrow> v \<in> set priorities"
| "offered st (ChangeNewCategory v) \<longleftrightarrow> showNewCategory st"
| "offered st ClickAdd \<longleftrightarrow> showNewCategory st"
| "offered st ClickCancelNewCategory \<longleftrightarrow> showNewCategory st"
| "offered st _ \<longleftrightarrow> True"

fun TaskForm_run :: "TaskForm_state \<Rightarrow> form_event list \<Rightarrow> TaskForm_state option" where
  "TaskForm_run st [] = Some st"
| "TaskForm_run st (e # es) =
     (if offered st e then TaskForm_run (TaskForm_handle e st) es else None)"

text \<open>
  Events that change a date field, and events that choose a category: picking an
  option of the category select, or adding a new category, which selects it.
\<close>

fun touches_dates :: "form_event \<Rightarrow> bool" where
  "touches_dates (ChangeDueDate v) = True"
| "touches_dates (ChangeReminder v) = True"
| "touches_dates _ = False"

fun picks_category :: "form_event \<Rightarrow> bool" where
  "picks_category (ChangeCategory v) = True"
| "picks_category ClickAdd = True"
| "picks_category _ = False"

text \<open>
  A stored date that \<^verbatim>\<open>toISOString\<close> writes with a four-digit year (or no date at all);
  a date cut down to the whole minute; and the ISO string of a stored date cut down to
  the whole minute.
\<close>

definition four_digit_year :: "Date option \<Rightarrow> bool" where
  "four_digit_year v =
     (case v of
        None \<Rightarrow> True
      | Some (Date t) \<Rightarrow> 0 \<le> YearFromTime t \<and> YearFromTime t \<le> 9999
      | Some Invalid_Date \<Rightarrow> False)"

definition whole_minute :: "Date \<Rightarrow> Date" where
  "whole_minute d =
     (case d of Date t \<Rightarrow> Date (t - t mod msPerMinute) | Invalid_Date \<Rightarrow> Invalid_Date)"

definition whole_minute_ISO :: "Date option \<Rightarrow> string option" where
  "whole_minute_ISO v =
     (case v of
        Some (Date t) \<Rightarrow> Some (ISOString (t - t mod msPerMinute))
      | _ \<Rightarrow> None)"


section \<open>Properties of the auth provider\<close>

lemma trace_perform [simp]: "trace (perform es st) = trace st @ es"
  by (simp add: perform_def)

lemma user_perform [simp]: "user (perform es st) = user st"
  by (simp add: perform_def)

lemma loading_perform [simp]: "loading (perform es st) = loading st"
  by (simp add: perform_def)

lemma location_perform [simp]: "window_location (perform es st) = window_location st"
  by (simp add: perform_def)

text \<open>
  C5. After \<^verbatim>\<open>logout\<close> the user is null, whether the request to
  \<^verbatim>\<open>POST /api/auth/logout\<close> succeeded or failed; the request is made exactly once and
  \<^verbatim>\<open>loading\<close> is not touched.
\<close>

theorem logout_ends_anonymous:
  "user (logout be st) = JNull
   \<and> loading (logout be st) = loading st
   \<and> http_requests (trace (logout be st)) = http_requests (trace st) @ [POST_auth_logout]"
  by (cases "auth_logout be")
     (simp_all add: logout_def setUser_def http_requests_def Let_def)

lemma initAuth_initial:
  "initAuth be (initial_auth_state loc) =
     (case sessionIdMatch (hash loc) of
        Some sid \<Rightarrow>
          (case auth_session be sid of
             Inr u \<Rightarrow>
               \<lparr>user = u, loading = False,
                window_location = \<lparr>pathname = pathname loc, search = [], hash = []\<rparr>,
                trace = [POST_auth_session sid, SetUser u,
                         ReplaceState (pathname loc), SetLoading False]\<rparr>
           | Inl e \<Rightarrow>
               \<lparr>user = JNull, loading = False, window_location = loc,
                trace = [POST_auth_session sid, ConsoleError, ConsoleError,
                         SetLoading False]\<rparr>)
      | None \<Rightarrow>
          (case auth_me be of
             Inr u \<Rightarrow>
               \<lparr>user = u, loading = False, window_location = loc,
                trace = [GET_auth_me, SetUser u, SetLoading False]\<rparr>
           | Inl e \<Rightarrow>
               \<lparr>user = JNull, loading = False, window_location = loc,
                trace = [GET_auth_me, SetUser JNull, SetLoading False]\<rparr>))"
  by (simp add: initAuth_def initial_auth_state_def processSession_def checkAuth_def
        setUser_def setLoading_def replaceState_def perform_def Let_def
      split: option.splits sum.splits)

lemma fold_call_invariant:
  assumes "\<forall>c\<in>set calls. answers_objects (snd c)"
    and "\<not> loading st" and "user st = JNull \<or> is_object (user st)"
  shows "\<not> loading (fold call calls st)
         \<and> (user (fold call calls st) = JNull \<or> is_object (user (fold call calls st)))"
  using assms
proof (induction calls arbitrary: st)
  case Nil
  then show ?case by simp
next
  case (Cons c calls)
  obtain f be where c: "c = (f, be)" by (cases c)
  from Cons.prems(1) c have be: "answers_objects be" by simp
  have "\<not> loading (call c st)
        \<and> (user (call c st) = JNull \<or> is_object (user (call c st)))"
  proof (cases f)
    case Call_logout
    then show ?thesis
      using Cons.prems(2) c
      by (cases "auth_logout be") (simp_all add: logout_def setUser_def Let_def)
  next
    case Call_checkAuth
    then show ?thesis
      using Cons.prems(2) c be
      by (cases "auth_me be") (simp_all add: checkAuth_def setUser_def Let_def answers_objects_def)
  qed
  with Cons.IH [of "call c st"] Cons.prems(1) show ?case by simp
qed

lemma initAuth_invariant:
  assumes "answers_objects be"
  shows "\<not> loading (initAuth be (initial_auth_state loc))
         \<and> (user (initAuth be (initial_auth_state loc)) = JNull
              \<or> is_object (user (initAuth be (initial_auth_state loc))))"
proof (cases "sessionIdMatch (hash loc)")
  case None
  then show ?thesis
    using assms
    by (cases "auth_me be")
       (simp_all add: initAuth_def initial_auth_state_def checkAuth_def setUser_def
          setLoading_def Let_def answers_objects_def)
next
  case (Some sid)
  from assms have "case auth_session be sid of Inr data \<Rightarrow> is_object data | Inl error \<Rightarrow> True"
    by (simp add: answers_objects_def)
  with Some show ?thesis
    by (cases "auth_session be sid")
       (simp_all add: initAuth_def initial_auth_state_def processSession_def setUser_def
          setLoading_def replaceState_def Let_def)
qed

lemma is_object_truthy: "is_object u \<Longrightarrow> ToBoolean u \<and> u \<noteq> JNull"
  by (cases u) simp_all

text \<open>
  C4, as the code has it. \<^verbatim>\<open>App\<close> renders the loading screen exactly while \<^verbatim>\<open>loading\<close> is
  true, and once it is false the dashboard exactly when \<^verbatim>\<open>user\<close> is truthy and the login
  page exactly when it is falsy, that is \<^verbatim>\<open>null\<close>, \<^verbatim>\<open>false\<close>, \<^verbatim>\<open>0\<close> or the empty string. The
  element rendered is determined by which of the three states loading,
  authenticated-as, anonymous the pair stands for. When the backend answers the two user
  requests with objects whenever it answers them successfully, then after mount and any
  sequence of \<^verbatim>\<open>logout\<close> and \<^verbatim>\<open>checkAuth\<close> calls \<^verbatim>\<open>loading\<close> is false, \<^verbatim>\<open>user\<close> is \<^verbatim>\<open>null\<close> or an
  object, and the dashboard is rendered exactly when \<^verbatim>\<open>user\<close> is non-null, the login page
  exactly when it is \<^verbatim>\<open>null\<close>.
\<close>

theorem App_renders_by_truthiness:
  "(App st = LoadingScreen \<longleftrightarrow> loading st)
   \<and> (\<not> loading st \<longrightarrow> (App st = Dashboard \<longleftrightarrow> ToBoolean (user st))
                      \<and> (App st = LoginPage \<longleftrightarrow> \<not> ToBoolean (user st)))
   \<and> (ToBoolean (user st) \<longleftrightarrow>
        user st \<notin> {JNull, JBool False, JNumber 0, JString []})
   \<and> (App st = LoadingScreen \<longleftrightarrow> ui_state_of st = Loading)
   \<and> (App st = Dashboard \<longleftrightarrow> ui_state_of st = AuthenticatedAs (user st))
   \<and> (App st = LoginPage \<longleftrightarrow> ui_state_of st = Anonymous)
   \<and> (ui_state_of st = ui_state_of st' \<longrightarrow> App st = App st')
   \<and> (answers_objects be \<and> (\<forall>c\<in>set calls. answers_objects (snd c)) \<longrightarrow>
        \<not> loading (AuthProvider loc be calls)
        \<and> (user (AuthProvider loc be calls) = JNull
             \<or> is_object (user (AuthProvider loc be calls)))
        \<and> (App (AuthProvider loc be calls) = Dashboard \<longleftrightarrow>
             user (AuthProvider loc be calls) \<noteq> JNull)
        \<and> (App (AuthProvider loc be calls) = LoginPage \<longleftrightarrow>
             user (AuthProvider loc be calls) = JNull))"
proof -
  have a: "(App st = LoadingScreen \<longleftrightarrow> loading st)
     \<and> (\<not> loading st \<longrightarrow> (App st = Dashboard \<longleftrightarrow> ToBoolean (user st))
                        \<and> (App st = LoginPage \<longleftrightarrow> \<not> ToBoolean (user st)))"
    by (simp add: App_def)
  have b: "ToBoolean (user st) \<longleftrightarrow>
        user st \<notin> {JNull, JBool False, JNumber 0, JString []}"
    by (cases "user st") auto
  have c: "(App st = LoadingScreen \<longleftrightarrow> ui_state_of st = Loading)
     \<and> (App st = Dashboard \<longleftrightarrow> ui_state_of st = AuthenticatedAs (user st))
     \<and> (App st = LoginPage \<longleftrightarrow> ui_state_of st = Anonymous)"
    by (simp add: App_def ui_state_of_def)
  have d: "ui_state_of st = ui_state_of st' \<longrightarrow> App st = App st'"
    by (auto simp: App_def ui_state_of_def split: if_splits)
  have e: "\<not> loading (AuthProvider loc be calls)
        \<and> (user (AuthProvider loc be calls) = JNull
             \<or> is_object (user (AuthProvider loc be calls)))
        \<and> (App (AuthProvider loc be calls) = Dashboard \<longleftrightarrow>
             user (AuthProvider loc be calls) \<noteq> JNull)
        \<and> (App (AuthProvider loc be calls) = LoginPage \<longleftrightarrow>
             user (AuthProvider loc be calls) = JNull)"
    if h: "answers_objects be" "\<forall>c\<in>set calls. answers_objects (snd c)"
  proof -
    let ?end = "AuthProvider loc be calls"
    from initAuth_invariant [OF h(1), of loc]
    have inv: "\<not> loading ?end \<and> (user ?end = JNull \<or> is_object (user ?end))"
      unfolding AuthProvider_def
      by (intro fold_call_invariant [OF h(2)]) simp_all
    then show ?thesis
      using is_object_truthy [of "user ?end"] by (auto simp: App_def)
  qed
  from a b c d e show ?thesis by blast
qed

theorem App_renders_by_truthiness_witness:
  "App (AuthProvider \<lparr>pathname = ''/'', search = [], hash = ''#session_id=abc''\<rparr>
          \<lparr>auth_session = (\<lambda>s. Inr (User s ''a@b.c'' ''Ann'' ''p'')),
           auth_me = Inl (HttpError 401), auth_logout = Inr ()\<rparr> []) = Dashboard
   \<and> App (AuthProvider \<lparr>pathname = ''/'', search = [], hash = ''#session_id=abc''\<rparr>
          \<lparr>auth_session = (\<lambda>s. Inr (User s ''a@b.c'' ''Ann'' ''p'')),
           auth_me = Inl (HttpError 401), auth_logout = Inr ()\<rparr>
          [(Call_logout,
            \<lparr>auth_session = (\<lambda>s. Inr (User s ''a@b.c'' ''Ann'' ''p'')),
             auth_me = Inl (HttpError 401), auth_logout = Inl NetworkError\<rparr>)]) = LoginPage
   \<and> App (initial_auth_state \<lparr>pathname = ''/'', search = [], hash = []\<rparr>) = LoadingScreen"
proof -
  let ?loc = "\<lparr>pathname = ''/'', search = [], hash = ''#session_id=abc''\<rparr>"
  let ?be = "\<lparr>auth_session = (\<lambda>s. Inr (User s ''a@b.c'' ''Ann'' ''p'')),
           auth_me = Inl (HttpError 401), auth_logout = Inr ()\<rparr>"
  let ?down = "\<lparr>auth_session = (\<lambda>s. Inr (User s ''a@b.c'' ''Ann'' ''p'')),
           auth_me = Inl (HttpError 401), auth_logout = Inl NetworkError\<rparr>"
  have u1: "user (AuthProvider ?loc ?be []) = User ''abc'' ''a@b.c'' ''Ann'' ''p''"
    by (simp add: AuthProvider_def initAuth_initial match_here_def)
  have u2: "user (AuthProvider ?loc ?be [(Call_logout, ?down)]) = JNull"
    by (simp add: AuthProvider_def initAuth_initial match_here_def logout_def setUser_def Let_def)
  have ob: "answers_objects ?be" "answers_objects ?down"
    by (simp_all add: answers_objects_def User_def)
  let ?st = "initial_auth_state \<lparr>pathname = ''/'', search = [], hash = []\<rparr>"
  have d: "App (AuthProvider ?loc ?be []) = Dashboard"
    using App_renders_by_truthiness [of ?st ?st ?be "[]" ?loc] ob(1) u1
    by (simp add: User_def)
  have l: "App (AuthProvider ?loc ?be [(Call_logout, ?down)]) = LoginPage"
    using App_renders_by_truthiness [of ?st ?st ?be "[(Call_logout, ?down)]" ?loc] ob u2
    by simp
  have s: "App ?st = LoadingScreen"
    using App_renders_by_truthiness [of ?st ?st ?be "[]" ?loc]
    by (simp add: initial_auth_state_def)
  from d l s show ?thesis by simp
qed

text \<open>
  C4 as stated fails when \<^verbatim>\<open>user\<close> is non-null and falsy. \<^verbatim>\<open>GET /api/auth/me\<close> answers 200
  with an empty body: \<^verbatim>\<open>response.data\<close> is the empty string, \<^verbatim>\<open>checkAuth\<close> stores it,
  \<^verbatim>\<open>loading\<close> becomes false, and the login page is rendered although \<^verbatim>\<open>user\<close> is not null.
\<close>

theorem App_falsy_user_renders_LoginPage:
  "user (initAuth \<lparr>auth_session = (\<lambda>s. Inl (HttpError 401)), auth_me = Inr (JString []),
                   auth_logout = Inr ()\<rparr>
           (initial_auth_state \<lparr>pathname = ''/'', search = [], hash = []\<rparr>)) = JString []
   \<and> JString [] \<noteq> JNull
   \<and> loading (initAuth \<lparr>auth_session = (\<lambda>s. Inl (HttpError 401)), auth_me = Inr (JString []),
                   auth_logout = Inr ()\<rparr>
           (initial_auth_state \<lparr>pathname = ''/'', search = [], hash = []\<rparr>)) = False
   \<and> App (initAuth \<lparr>auth_session = (\<lambda>s. Inl (HttpError 401)), auth_me = Inr (JString []),
                   auth_logout = Inr ()\<rparr>
           (initial_auth_state \<lparr>pathname = ''/'', search = [], hash = []\<rparr>)) = LoginPage"
  by (simp add: initAuth_initial App_def)





section \<open>Properties of the category list\<close>

lemma Set_add_append:
  "foldl Set_add (a @ b) xs = a @ foldl Set_add b (filter (\<lambda>x. x \<notin> set a) xs)"
proof (induction xs arbitrary: b)
  case Nil
  show ?case by simp
next
  case (Cons x xs)
  show ?case
  proof (cases "x \<in> set a")
    case True
    then have "Set_add (a @ b) x = a @ b" by (simp add: Set_add_def)
    with True Cons.IH [of b] show ?thesis by simp
  next
    case False
    then have "Set_add (a @ b) x = a @ Set_add b x" by (simp add: Set_add_def)
    with False Cons.IH [of "Set_add b x"] show ?thesis by simp
  qed
qed

lemma distinct_foldl_Set_add: "distinct acc \<Longrightarrow> distinct (foldl Set_add acc xs)"
  by (induction xs arbitrary: acc) (simp_all add: Set_add_def)

lemma set_foldl_Set_add: "set (foldl Set_add acc xs) = set acc \<union> set xs"
  by (induction xs arbitrary: acc) (auto simp: Set_add_def)

lemma distinct_count_list_once: "distinct xs \<Longrightarrow> x \<in> set xs \<Longrightarrow> count_list xs x = 1"
  by (induction xs) auto

lemma distinct_new_Set: "distinct (new_Set xs)"
  by (simp add: new_Set_def distinct_foldl_Set_add)

lemma set_new_Set: "set (new_Set xs) = set xs"
  by (simp add: new_Set_def set_foldl_Set_add)

lemma new_Set_defaultCategories: "new_Set defaultCategories = defaultCategories"
  by (simp add: new_Set_def defaultCategories_def Set_add_def)

lemma new_Set_defaults_first:
  "new_Set (defaultCategories @ cats) =
     defaultCategories @ new_Set (filter (\<lambda>c. c \<notin> set defaultCategories) cats)"
proof -
  have "new_Set (defaultCategories @ cats) = foldl Set_add (new_Set defaultCategories) cats"
    by (simp add: new_Set_def)
  also have "\<dots> = foldl Set_add (defaultCategories @ []) cats"
    by (simp add: new_Set_defaultCategories)
  also have "\<dots> = defaultCategories @ foldl Set_add [] (filter (\<lambda>c. c \<notin> set defaultCategories) cats)"
    by (rule Set_add_append)
  finally show ?thesis by (simp add: new_Set_def)
qed

text \<open>
  C3. When \<^verbatim>\<open>GET /api/tasks/categories\<close> returns a list, both \<^verbatim>\<open>fetchCategories\<close>
  functions set \<^verbatim>\<open>availableCategories\<close> to the six defaults in their fixed order
  followed by the returned categories that are not defaults, each once, in the order
  of their first occurrence: the list has no duplicates and its elements are exactly
  the defaults and the returned categories.
\<close>

theorem fetchCategories_union:
  "availableCategories (TaskForm_fetchCategories (Inr userCategories) st) =
     Dashboard_fetchCategories (Inr userCategories) old
   \<and> Dashboard_fetchCategories (Inr userCategories) old =
       [''General'', ''Work'', ''Personal'', ''Health'', ''Shopping'', ''Finance'']
       @ new_Set (filter (\<lambda>c. c \<notin> set defaultCategories) userCategories)
   \<and> distinct (Dashboard_fetchCategories (Inr userCategories) old)
   \<and> set (Dashboard_fetchCategories (Inr userCategories) old) =
       set defaultCategories \<union> set userCategories
   \<and> (\<forall>c \<in> set defaultCategories \<union> set userCategories.
        count_list (Dashboard_fetchCategories (Inr userCategories) old) c = 1)
   \<and> (\<forall>c. c \<notin> set defaultCategories \<union> set userCategories \<longrightarrow>
        count_list (Dashboard_fetchCategories (Inr userCategories) old) c = 0)"
proof -
  let ?r = "new_Set (defaultCategories @ userCategories)"
  have d: "distinct ?r" by (rule distinct_new_Set)
  have s: "set ?r = set defaultCategories \<union> set userCategories"
    by (simp add: set_new_Set)
  have once: "\<forall>c \<in> set defaultCategories \<union> set userCategories. count_list ?r c = 1"
  proof
    fix c assume "c \<in> set defaultCategories \<union> set userCategories"
    then have "c \<in> set ?r" using s by simp
    with d show "count_list ?r c = 1" by (rule distinct_count_list_once)
  qed
  have none: "\<forall>c. c \<notin> set defaultCategories \<union> set userCategories \<longrightarrow> count_list ?r c = 0"
    using s by (simp add: count_list_0_iff)
  have first: "?r = [''General'', ''Work'', ''Personal'', ''Health'', ''Shopping'', ''Finance'']
       @ new_Set (filter (\<lambda>c. c \<notin> set defaultCategories) userCategories)"
    using new_Set_defaults_first [of userCategories] by (simp add: defaultCategories_def)
  show ?thesis
    using d s once none first
    by (simp add: TaskForm_fetchCategories_def Dashboard_fetchCategories_def)
qed

theorem fetchCategories_union_witness:
  "Dashboard_fetchCategories (Inr [''Work'', ''Errands'', ''Errands'', ''Garden'']) [] =
     [''General'', ''Work'', ''Personal'', ''Health'', ''Shopping'', ''Finance'',
      ''Errands'', ''Garden'']
   \<and> count_list (Dashboard_fetchCategories (Inr [''Work'', ''Errands'', ''Errands'', ''Garden'']) [])
       ''Errands'' = 1"
  using fetchCategories_union [of "[''Work'', ''Errands'', ''Errands'', ''Garden'']" _ "[]"]
  by (simp add: new_Set_def Set_add_def defaultCategories_def)


section \<open>Properties of time values and dates\<close>

subsection \<open>Years, months and days\<close>

lemma div_pred:
  fixes z k :: int
  assumes "0 < k"
  shows "z div k = (z - 1) div k + (if z mod k = 0 then 1 else 0)"
proof (cases "z mod k = 0")
  case True
  have "z - 1 = k * (z div k - 1) + (k - 1)"
    using mult_div_mod_eq [of k z] True by (simp add: algebra_simps)
  then have "(z - 1) div k = z div k - 1"
    using assms by (intro int_div_pos_eq [of _ _ _ "k - 1"]) auto
  with True show ?thesis by simp
next
  case False
  have r: "0 < z mod k" "z mod k < k"
    using False pos_mod_sign [OF assms, of z] pos_mod_bound [OF assms, of z] by linarith+
  have "z - 1 = k * (z div k) + (z mod k - 1)"
    using mult_div_mod_eq [of k z] by simp
  then have "(z - 1) div k = z div k"
    using r by (intro int_div_pos_eq [of _ _ _ "z mod k - 1"]) auto
  with False show ?thesis by simp
qed


lemma DayFromYear_Suc: "DayFromYear (y + 1) = DayFromYear y + DaysInYear y"
proof -
  have a: "(y - 1968) div 4 = (y - 1969) div 4 + (if y mod 4 = 0 then 1 else 0)"
    using div_pred [of 4 "y - 1968"] mod_diff_right_eq [of y 1968 4] by simp
  have b: "(y - 1900) div 100 = (y - 1901) div 100 + (if y mod 100 = 0 then 1 else 0)"
    using div_pred [of 100 "y - 1900"] mod_diff_right_eq [of y 1900 100] by simp
  have c: "(y - 1600) div 400 = (y - 1601) div 400 + (if y mod 400 = 0 then 1 else 0)"
    using div_pred [of 400 "y - 1600"] mod_diff_right_eq [of y 1600 400] by simp
  have m1: "y mod 400 = 0 \<Longrightarrow> y mod 100 = 0"
    using mod_mod_cancel [of 100 400 y] by simp
  have m2: "y mod 100 = 0 \<Longrightarrow> y mod 4 = 0"
    using mod_mod_cancel [of 4 100 y] by simp
  have e: "DayFromYear (y + 1) =
      365 * (y - 1970) + 365 + (y - 1968) div 4 - (y - 1900) div 100 + (y - 1600) div 400"
    by (simp add: DayFromYear_def)
  consider (A) "y mod 4 \<noteq> 0" | (B) "y mod 4 = 0" "y mod 100 \<noteq> 0"
    | (C) "y mod 100 = 0" "y mod 400 \<noteq> 0" | (D) "y mod 400 = 0"
    by argo
  then show ?thesis
  proof cases
    case A
    with m1 m2 have "y mod 100 \<noteq> 0" "y mod 400 \<noteq> 0" by argo+
    with A show ?thesis unfolding e a b c by (simp add: DayFromYear_def DaysInYear_def)
  next
    case B
    with m1 have "y mod 400 \<noteq> 0" by argo
    with B show ?thesis unfolding e a b c by (simp add: DayFromYear_def DaysInYear_def)
  next
    case C
    with m2 have "y mod 4 = 0" by argo
    with C show ?thesis unfolding e a b c by (simp add: DayFromYear_def DaysInYear_def)
  next
    case D
    with m1 m2 have "y mod 100 = 0" "y mod 4 = 0" by argo+
    with D show ?thesis unfolding e a b c by (simp add: DayFromYear_def DaysInYear_def)
  qed
qed

lemma DayFromYear_bounds:
  "400 * DayFromYear y \<le> 146097 * y - 287810501"
  "146097 * y - 287811596 \<le> 400 * DayFromYear y"
proof -
  define a where "a = (y - 1969) div 4"
  define b where "b = (y - 1901) div 100"
  define c where "c = (y - 1601) div 400"
  have a1: "4 * a \<le> y - 1969" and a2: "y - 1969 < 4 * a + 4"
    using mult_div_mod_eq [of 4 "y - 1969"] pos_mod_sign [of 4 "y - 1969"]
      pos_mod_bound [of 4 "y - 1969"] unfolding a_def by linarith+
  have b1: "100 * b \<le> y - 1901" and b2: "y - 1901 < 100 * b + 100"
    using mult_div_mod_eq [of 100 "y - 1901"] pos_mod_sign [of 100 "y - 1901"]
      pos_mod_bound [of 100 "y - 1901"] unfolding b_def by linarith+
  have c1: "400 * c \<le> y - 1601" and c2: "y - 1601 < 400 * c + 400"
    using mult_div_mod_eq [of 400 "y - 1601"] pos_mod_sign [of 400 "y - 1601"]
      pos_mod_bound [of 400 "y - 1601"] unfolding c_def by linarith+
  have e: "400 * DayFromYear y = 146000 * y - 287620000 + 400 * a - 400 * b + 400 * c"
    by (simp add: DayFromYear_def a_def b_def c_def algebra_simps)
  show "400 * DayFromYear y \<le> 146097 * y - 287810501"
    using a1 b2 c1 unfolding e by linarith
  show "146097 * y - 287811596 \<le> 400 * DayFromYear y"
    using a2 b1 c2 unfolding e by linarith
qed

lemma DaysInYear_ge: "365 \<le> DaysInYear y" "DaysInYear y \<le> 366"
  by (simp_all add: DaysInYear_def)

lemma DayFromYear_mono: "y \<le> y' \<Longrightarrow> DayFromYear y \<le> DayFromYear y'"
proof (induction y' rule: int_ge_induct)
  case base
  show ?case by simp
next
  case (step i)
  then show ?case using DayFromYear_Suc [of i] DaysInYear_ge(1) [of i] by linarith
qed

lemma YearFromDay_spec:
  "DayFromYear (YearFromDay d) \<le> d \<and> d < DayFromYear (YearFromDay d + 1)"
proof -
  define q where "q = (400 * d - 589) div 146097"
  have q1: "146097 * q \<le> 400 * d - 589"
    using mult_div_mod_eq [of 146097 "400 * d - 589"] pos_mod_sign [of 146097 "400 * d - 589"]
    unfolding q_def by linarith
  have q2: "400 * d - 589 < 146097 * q + 146097"
    using mult_div_mod_eq [of 146097 "400 * d - 589"] pos_mod_bound [of 146097 "400 * d - 589"]
    unfolding q_def by linarith
  have lo: "DayFromYear (1970 + q) \<le> d"
    using DayFromYear_bounds(1) [of "1970 + q"] q1 by (simp add: algebra_simps)
  have hi: "d < DayFromYear (1970 + q + 2)"
    using DayFromYear_bounds(2) [of "1970 + q + 2"] q2 by (simp add: algebra_simps)
  show ?thesis
  proof (cases "DayFromYear (1970 + q + 1) \<le> d")
    case True
    then have "YearFromDay d = 1970 + q + 1"
      by (simp add: YearFromDay_def q_def Let_def)
    with True hi show ?thesis by (simp add: add.assoc)
  next
    case False
    then have "YearFromDay d = 1970 + q"
      by (simp add: YearFromDay_def q_def Let_def)
    with False lo show ?thesis by simp
  qed
qed

lemma YearFromDay_unique:
  assumes "DayFromYear y \<le> d" "d < DayFromYear (y + 1)"
  shows "YearFromDay d = y"
proof (rule ccontr)
  assume ne: "YearFromDay d \<noteq> y"
  show False
  proof (cases "YearFromDay d < y")
    case True
    then have "DayFromYear (YearFromDay d + 1) \<le> DayFromYear y"
      by (intro DayFromYear_mono) simp
    with YearFromDay_spec [of d] assms show False by linarith
  next
    case False
    with ne have "y + 1 \<le> YearFromDay d" by simp
    then have "DayFromYear (y + 1) \<le> DayFromYear (YearFromDay d)"
      by (rule DayFromYear_mono)
    with YearFromDay_spec [of d] assms show False by linarith
  qed
qed


lemma YearFromTime_spec:
  "TimeFromYear (YearFromTime t) \<le> t \<and> t < TimeFromYear (YearFromTime t + 1)"
proof -
  have d: "msPerDay * Day t \<le> t" "t < msPerDay * Day t + msPerDay"
    using mult_div_mod_eq [of msPerDay t] pos_mod_sign [of msPerDay t]
      pos_mod_bound [of msPerDay t]
    by (simp_all add: Day_def msPerDay_def)
  have "msPerDay * DayFromYear (YearFromDay (Day t)) \<le> msPerDay * Day t"
    using YearFromDay_spec [of "Day t"] by (simp add: msPerDay_def)
  moreover have "msPerDay * (Day t + 1) \<le> msPerDay * DayFromYear (YearFromDay (Day t) + 1)"
    using YearFromDay_spec [of "Day t"] by (simp add: msPerDay_def)
  then have "msPerDay * Day t + msPerDay \<le> msPerDay * DayFromYear (YearFromDay (Day t) + 1)"
    by (simp add: algebra_simps)
  ultimately show ?thesis
    using d unfolding TimeFromYear_def YearFromTime_def by linarith
qed

lemma InLeapYear_cases: "InLeapYear t = 0 \<or> InLeapYear t = 1"
  by (simp add: InLeapYear_def)

lemma DaysInYear_InLeapYear: "DaysInYear (YearFromTime t) = 365 + InLeapYear t"
  by (simp add: InLeapYear_def DaysInYear_def)

lemma DayWithinYear_range:
  "0 \<le> DayWithinYear t" "DayWithinYear t < 365 + InLeapYear t"
  using YearFromDay_spec [of "Day t"] DayFromYear_Suc [of "YearFromTime t"]
    DaysInYear_InLeapYear [of t]
  by (simp_all add: DayWithinYear_def YearFromTime_def)

lemma MonthFromTime_range: "0 \<le> MonthFromTime t" "MonthFromTime t \<le> 11"
  by (simp_all add: MonthFromTime_def Let_def)

lemma MonthFromTime_bounds:
  "DayFromMonth (MonthFromTime t) (InLeapYear t) \<le> DayWithinYear t"
  "DayWithinYear t < DayFromMonth (MonthFromTime t) (InLeapYear t)
      + DaysInMonth (YearFromTime t) (MonthFromTime t)"
  using DayWithinYear_range [of t] InLeapYear_cases [of t] DaysInYear_InLeapYear [of t]
  by (auto simp: MonthFromTime_def DayFromMonth_def DaysInMonth_def Let_def)

lemma DateFromTime_eq:
  "DateFromTime t = DayWithinYear t - DayFromMonth (MonthFromTime t) (InLeapYear t) + 1"
  using MonthFromTime_range [of t]
  by (auto simp: DateFromTime_def DayFromMonth_def Let_def)

lemma DateFromTime_range:
  "1 \<le> DateFromTime t" "DateFromTime t \<le> DaysInMonth (YearFromTime t) (MonthFromTime t)"
  using MonthFromTime_bounds [of t] by (simp_all add: DateFromTime_eq)

lemma MakeDay_in_range:
  assumes "0 \<le> m" "m \<le> 11"
  shows "MakeDay y m dt = DayFromYear y + DayFromMonth m (if DaysInYear y = 366 then 1 else 0) + dt - 1"
  using assms by (simp add: MakeDay_def Let_def)

lemma MakeDay_fields:
  "MakeDay (YearFromTime t) (MonthFromTime t) (DateFromTime t) = Day t"
  using MonthFromTime_range [of t]
  by (simp add: MakeDay_in_range DateFromTime_eq InLeapYear_def DayWithinYear_def)

lemma month_cases:
  fixes m :: int
  assumes "0 \<le> m" "m \<le> 11"
  shows "m = 0 \<or> m = 1 \<or> m = 2 \<or> m = 3 \<or> m = 4 \<or> m = 5
       \<or> m = 6 \<or> m = 7 \<or> m = 8 \<or> m = 9 \<or> m = 10 \<or> m = 11"
  using assms by presburger

lemma DayFromMonth_next:
  assumes "0 \<le> m" "m \<le> 11"
  shows "DayFromMonth m (if DaysInYear y = 366 then 1 else 0) + DaysInMonth y m =
         (if m = 11 then DaysInYear y
          else DayFromMonth (m + 1) (if DaysInYear y = 366 then 1 else 0))"
  using month_cases [OF assms]
  by (elim disjE) (simp_all add: DayFromMonth_def DaysInMonth_def DaysInYear_def)

lemma DayFromMonth_range:
  assumes "0 \<le> m" "m \<le> 11"
  shows "0 \<le> DayFromMonth m (if DaysInYear y = 366 then 1 else 0)"
    "DayFromMonth m (if DaysInYear y = 366 then 1 else 0) + DaysInMonth y m \<le> DaysInYear y"
  using month_cases [OF assms]
  by (elim disjE; simp add: DayFromMonth_def DaysInMonth_def DaysInYear_def)+

lemma fields_of_MakeDay:
  assumes m: "0 \<le> m" "m \<le> 11" and dt: "1 \<le> dt" "dt \<le> DaysInMonth y m"
    and t: "Day t = MakeDay y m dt"
  shows "YearFromTime t = y" "MonthFromTime t = m" "DateFromTime t = dt"
proof -
  let ?l = "if DaysInYear y = 366 then 1 else 0 :: int"
  have day: "Day t = DayFromYear y + DayFromMonth m ?l + dt - 1"
    using t m by (simp add: MakeDay_in_range)
  have "DayFromYear y \<le> Day t" "Day t < DayFromYear (y + 1)"
    using day dt DayFromMonth_range [OF m, of y] by (simp_all add: DayFromYear_Suc)
  then show y: "YearFromTime t = y"
    unfolding YearFromTime_def by (rule YearFromDay_unique)
  have l: "InLeapYear t = ?l" by (simp add: InLeapYear_def y)
  have dwy: "DayWithinYear t = DayFromMonth m ?l + dt - 1"
    using day by (simp add: DayWithinYear_def y)
  show mo: "MonthFromTime t = m"
    using month_cases [OF m] dt
    by (elim disjE)
       (simp_all add: MonthFromTime_def Let_def l dwy DayFromMonth_def DaysInMonth_def
          split: if_splits)
  show "DateFromTime t = dt"
    by (simp add: DateFromTime_eq mo l dwy)
qed

lemma MakeDay_last_day:
  assumes "0 \<le> m" "m \<le> 11"
  shows "MakeDay y (m + 1) 0 = MakeDay y m (DaysInMonth y m)"
proof (cases "m = 11")
  case True
  then show ?thesis
    by (simp add: MakeDay_def Let_def DayFromYear_Suc DayFromMonth_def DaysInMonth_def
        DaysInYear_def)
next
  case False
  with assms have "0 \<le> m + 1" "m + 1 \<le> 11" by simp_all
  then show ?thesis
    using DayFromMonth_next [OF assms, of y] False assms
    by (simp add: MakeDay_in_range)
qed


lemma push_nulls_eq: "push_nulls i w days = days @ replicate (nat (w - i)) None"
proof (induction i w days rule: push_nulls.induct)
  case (1 i w days)
  show ?case
  proof (cases "i < w")
    case True
    then have "nat (w - i) = Suc (nat (w - (i + 1)))" by simp
    with True "1.IH" show ?thesis
      by (subst push_nulls.simps) (simp add: replicate_app_Cons_same)
  next
    case False
    then show ?thesis by (subst push_nulls.simps) simp
  qed
qed

lemma push_days_eq:
  "push_days tz year month i n days =
     days @ map (\<lambda>j. Some (new_Date tz year month (Some j))) [i..n]"
proof (induction tz year month i n days rule: push_days.induct)
  case (1 tz year month i n days)
  show ?case
  proof (cases "i \<le> n")
    case True
    with "1.IH" show ?thesis
      by (subst push_days.simps) (simp add: upto_rec1 [of i n])
  next
    case False
    then show ?thesis by (subst push_days.simps) simp
  qed
qed

lemma Day_MakeDate: "Day (MakeDate d 0) = d"
  by (simp add: Day_def MakeDate_def msPerDay_def)

lemma MakeDay_year_bounds:
  assumes "0 \<le> m" "m \<le> 11" "1 \<le> i" "i \<le> DaysInMonth y m"
  shows "DayFromYear y \<le> MakeDay y m i" "MakeDay y m i < DayFromYear (y + 1)"
  using assms DayFromMonth_range [of m y]
  by (simp_all add: MakeDay_in_range DayFromYear_Suc)

lemma DayFromYear_275760: "DayFromYear 275760 = 99999744"
  by (simp add: DayFromYear_def)

lemma DayFromYear_m271820: "DayFromYear (- 271820) = - 99999744"
  by (simp add: DayFromYear_def)

lemma TimeClip_day_in_range:
  assumes y: "- 271820 \<le> y" "y \<le> 275759" and m: "0 \<le> m" "m \<le> 11"
    and i: "1 \<le> i" "i \<le> DaysInMonth y m" and offset: "\<bar>offset\<bar> \<le> msPerDay"
  shows "TimeClip (MakeDay y m i * msPerDay - offset) = Some (MakeDay y m i * msPerDay - offset)"
proof -
  have "DayFromYear (- 271820) \<le> DayFromYear y" "DayFromYear (y + 1) \<le> DayFromYear 275760"
    using y by (simp_all add: DayFromYear_mono)
  then have "- 99999744 \<le> MakeDay y m i" "MakeDay y m i < 99999744"
    using MakeDay_year_bounds [OF m i]
    by (simp_all add: DayFromYear_275760 DayFromYear_m271820)
  then show ?thesis
    using offset by (simp add: TimeClip_def msPerDay_def)
qed

text \<open>
  \<^verbatim>\<open>new Date(y, m, i)\<close> is the instant that the host's zone gives for local midnight of
  day \<open>i\<close> of the month.
\<close>

lemma new_Date_day:
  assumes yr: "y < 0 \<or> 99 < y" and y: "- 271820 \<le> y" "y \<le> 275759"
    and m: "0 \<le> m" "m \<le> 11" and i: "1 \<le> i" "i \<le> DaysInMonth y m"
    and tz: "\<bar>tz (MakeDay y m i * msPerDay) False\<bar> \<le> msPerDay"
  shows "new_Date tz (Some y) (Some m) (Some i) =
           Date (MakeDay y m i * msPerDay - tz (MakeDay y m i * msPerDay) False)"
  using yr TimeClip_day_in_range [OF y m i tz]
  by (auto simp: new_Date_def MakeTime_def MakeDate_def UTC_def Let_def)

lemma local_fields_of_day:
  assumes m: "0 \<le> m" "m \<le> 11" and i: "1 \<le> i" "i \<le> DaysInMonth y m"
    and d: "Day (LocalTime tz tv) = MakeDay y m i"
  shows "getFullYear tz (Date tv) = Some y" "getMonth tz (Date tv) = Some m"
    "getDate tz (Date tv) = Some i"
    "getDay tz (Date tv) = Some (WeekDay (MakeDate (MakeDay y m i) 0))"
proof -
  show "getFullYear tz (Date tv) = Some y" "getMonth tz (Date tv) = Some m"
    "getDate tz (Date tv) = Some i"
    using fields_of_MakeDay [OF m i d]
    by (simp_all add: getFullYear_def getMonth_def getDate_def)
  show "getDay tz (Date tv) = Some (WeekDay (MakeDate (MakeDay y m i) 0))"
    by (simp add: getDay_def WeekDay_def d Day_MakeDate)
qed

lemma DaysInMonth_pos: "28 \<le> DaysInMonth y m"
  by (simp add: DaysInMonth_def)

lemma new_Date_lastDay:
  assumes yr: "y < 0 \<or> 99 < y" and m: "0 \<le> m" "m \<le> 11"
  shows "new_Date tz (Some y) (Some (m + 1)) (Some 0) =
         new_Date tz (Some y) (Some m) (Some (DaysInMonth y m))"
proof -
  from yr have "(if 0 \<le> y \<and> y \<le> 99 then 1900 + y else y) = y" by auto
  then show ?thesis by (simp add: new_Date_def MakeDay_last_day [OF m])
qed

subsection \<open>Zones\<close>

lemma Etc_UTC_offset [simp]: "Etc_UTC t isUTC = 0"
  by (simp add: Etc_UTC_def zone_of_def)

lemma Etc_GMT_minus_1_offset [simp]: "Etc_GMT_minus_1 t isUTC = 3600000"
  by (simp add: Etc_GMT_minus_1_def zone_of_def)

lemma America_New_York_offsets: "\<bar>America_New_York t isUTC\<bar> < 86400000"
  by (simp add: America_New_York_def zone_of_def)


subsection \<open>Decimal digits\<close>

lemma digit_value_digit: "n < 10 \<Longrightarrow> digit_value (digit n) = Some (int n)"
  by (simp add: digit_value_def digit_def Let_def)

lemma digit_value_minus: "digit_value (CHR ''-'') = None"
  by (simp add: digit_value_def)

lemma digit_0: "digit 0 = CHR ''0''"
  by code_simp

lemma decimal_append:
  "decimal acc (xs @ ys) = (case decimal acc xs of Some v \<Rightarrow> decimal v ys | None \<Rightarrow> None)"
  by (induction xs arbitrary: acc) (simp_all split: option.splits)

lemma digits_not_Nil: "digits n \<noteq> []"
  by (subst digits.simps) simp

lemma decimal_digits:
  "decimal acc (digits n) = Some (acc * 10 ^ length (digits n) + int n)"
proof (induction n arbitrary: acc rule: digits.induct)
  case (1 n)
  show ?case
  proof (cases "n < 10")
    case True
    then show ?thesis
      by (subst (1 2) digits.simps) (simp add: digit_value_digit)
  next
    case False
    have "decimal acc (digits n) =
        (case decimal acc (digits (n div 10)) of
           Some v \<Rightarrow> decimal v [digit (n mod 10)] | None \<Rightarrow> None)"
      using False by (subst digits.simps) (simp add: decimal_append)
    also have "\<dots> = Some (10 * (acc * 10 ^ length (digits (n div 10)) + int (n div 10))
                          + int (n mod 10))"
      using False by (simp add: "1.IH" digit_value_digit)
    also have "\<dots> = Some (acc * 10 ^ length (digits n) + int n)"
    proof -
      have "length (digits n) = Suc (length (digits (n div 10)))"
        using False by (subst digits.simps) simp
      moreover have "int n = 10 * int (n div 10) + int (n mod 10)"
        by (simp add: zdiv_int zmod_int)
      ultimately show ?thesis by (simp add: algebra_simps)
    qed
    finally show ?thesis .
  qed
qed

lemma decimal_zeros: "decimal 0 (replicate k (CHR ''0'')) = Some 0"
  by (induction k) (simp_all add: digit_value_def)

lemma decimal_ToZeroPaddedDecimalString:
  "0 \<le> n \<Longrightarrow> decimal 0 (ToZeroPaddedDecimalString n k) = Some n"
  by (simp add: ToZeroPaddedDecimalString_def padStart_def decimal_append decimal_zeros
      decimal_digits)

lemma digits_all_digits: "c \<in> set (digits n) \<Longrightarrow> digit_value c \<noteq> None"
proof (induction n rule: digits.induct)
  case (1 n)
  show ?case
  proof (cases "n < 10")
    case True
    with "1.prems" show ?thesis
      by (subst (asm) digits.simps) (simp add: digit_value_digit)
  next
    case False
    with "1.prems" have "c \<in> set (digits (n div 10)) \<or> c = digit (n mod 10)"
      by (subst (asm) digits.simps) auto
    then show ?thesis
      using "1.IH" False by (auto simp: digit_value_digit)
  qed
qed

lemma ToZeroPaddedDecimalString_all_digits:
  "c \<in> set (ToZeroPaddedDecimalString n k) \<Longrightarrow> digit_value c \<noteq> None"
  using digits_all_digits [of c "nat n"]
  by (auto simp: ToZeroPaddedDecimalString_def padStart_def digit_value_def)

lemma length_ToZeroPaddedDecimalString:
  "length (ToZeroPaddedDecimalString n k) = max k (length (digits (nat n)))"
  by (simp add: ToZeroPaddedDecimalString_def padStart_def)

lemma length_digits_1: "n < 10 \<Longrightarrow> length (digits n) = 1"
  by (subst digits.simps) simp

lemma length_digits_2: "n < 100 \<Longrightarrow> length (digits n) \<le> 2"
  by (subst digits.simps) (simp add: length_digits_1)

lemma length_digits_3: "n < 1000 \<Longrightarrow> length (digits n) \<le> 3"
  using length_digits_2 [of "n div 10"] by (subst digits.simps) simp

lemma length_digits_4: "n < 10000 \<Longrightarrow> length (digits n) \<le> 4"
  using length_digits_3 [of "n div 10"] by (subst digits.simps) simp

lemma length_pad2: "0 \<le> n \<Longrightarrow> n < 100 \<Longrightarrow> length (ToZeroPaddedDecimalString n 2) = 2"
  using length_digits_2 [of "nat n"] by (simp add: length_ToZeroPaddedDecimalString)

lemma length_pad4: "0 \<le> n \<Longrightarrow> n < 10000 \<Longrightarrow> length (ToZeroPaddedDecimalString n 4) = 4"
  using length_digits_4 [of "nat n"] by (simp add: length_ToZeroPaddedDecimalString)


subsection \<open>Reading back the first sixteen characters of an ISO string\<close>

lemma length_2E:
  assumes "length s = 2"
  obtains a b where "s = [a, b]"
proof -
  from assms obtain a s' where s: "s = a # s'" and "length s' = 1"
    by (cases s) simp_all
  then obtain b where "s' = [b]" by (cases s') simp_all
  with s that show thesis by simp
qed

lemma length_4E:
  assumes "length s = 4"
  obtains a b c d where "s = [a, b, c, d]"
proof -
  from assms obtain a s' where s: "s = a # s'" and "length s' = 3"
    by (cases s) simp_all
  then obtain b s'' where s': "s' = b # s''" and "length s'' = 2"
    by (cases s') simp_all
  then obtain c d where "s'' = [c, d]" by (elim length_2E)
  with s s' that show thesis by simp
qed

lemma parse_fields_16:
  assumes "length Y = 4" "length M = 2" "length D = 2" "length H = 2" "length Mi = 2"
    and "decimal 0 Y = Some y" "decimal 0 M = Some mo" "decimal 0 D = Some d"
    and "decimal 0 H = Some h" "decimal 0 Mi = Some mi"
    and "1 \<le> mo" "mo \<le> 12" "1 \<le> d" "d \<le> 31" "h \<le> 23" "mi \<le> 59"
  shows "parse_fields (Y @ ''-'' @ M @ ''-'' @ D @ ''T'' @ H @ '':'' @ Mi)
         = Some (y, mo, d, h, mi, 0, 0)"
proof -
  obtain y1 y2 y3 y4 where Y: "Y = [y1, y2, y3, y4]" using assms(1) by (elim length_4E)
  obtain m1 m2 where M: "M = [m1, m2]" using assms(2) by (elim length_2E)
  obtain d1 d2 where D: "D = [d1, d2]" using assms(3) by (elim length_2E)
  obtain h1 h2 where H: "H = [h1, h2]" using assms(4) by (elim length_2E)
  obtain n1 n2 where Mi: "Mi = [n1, n2]" using assms(5) by (elim length_2E)
  have sub: "substring (Y @ ''-'' @ M @ ''-'' @ D @ ''T'' @ H @ '':'' @ Mi) 0 4 = Y"
    "substring (Y @ ''-'' @ M @ ''-'' @ D @ ''T'' @ H @ '':'' @ Mi) 5 7 = M"
    "substring (Y @ ''-'' @ M @ ''-'' @ D @ ''T'' @ H @ '':'' @ Mi) 8 10 = D"
    "substring (Y @ ''-'' @ M @ ''-'' @ D @ ''T'' @ H @ '':'' @ Mi) 11 13 = H"
    "substring (Y @ ''-'' @ M @ ''-'' @ D @ ''T'' @ H @ '':'' @ Mi) 14 16 = Mi"
    by (simp_all add: substring_def Y M D H Mi)
  have sep: "(Y @ ''-'' @ M @ ''-'' @ D @ ''T'' @ H @ '':'' @ Mi) ! 4 = CHR ''-''"
    "(Y @ ''-'' @ M @ ''-'' @ D @ ''T'' @ H @ '':'' @ Mi) ! 7 = CHR ''-''"
    "(Y @ ''-'' @ M @ ''-'' @ D @ ''T'' @ H @ '':'' @ Mi) ! 10 = CHR ''T''"
    "(Y @ ''-'' @ M @ ''-'' @ D @ ''T'' @ H @ '':'' @ Mi) ! 13 = CHR '':''"
    "length (Y @ ''-'' @ M @ ''-'' @ D @ ''T'' @ H @ '':'' @ Mi) = 16"
    by (simp_all add: Y M D H Mi)
  show ?thesis
    unfolding parse_fields_def Let_def sub sep using assms(6-) by simp
qed

lemma time_of_minute:
  "MakeDate (Day t) (MakeTime (HourFromTime t) (MinFromTime t) 0 0) = t - t mod msPerMinute"
proof -
  define u where "u = t div 60000"
  have h: "t div 3600000 = u div 60"
    using zdiv_zmult2_eq [of 60 t 60000] by (simp add: u_def)
  have d: "t div 86400000 = u div 60 div 24"
    using zdiv_zmult2_eq [of 24 t 3600000] h by simp
  have "t - t mod 60000 = 60000 * u"
    using mult_div_mod_eq [of 60000 t] unfolding u_def by linarith
  moreover have "u = 60 * (u div 60) + u mod 60" by simp
  moreover have "u div 60 = 24 * (u div 60 div 24) + (u div 60) mod 24" by simp
  ultimately show ?thesis
    unfolding MakeDate_def MakeTime_def Day_def HourFromTime_def MinFromTime_def
      msPerDay_def msPerHour_def msPerMinute_def msPerSecond_def h d u_def [symmetric]
    by linarith
qed

lemma time_field_ranges:
  "0 \<le> HourFromTime t" "HourFromTime t \<le> 23" "0 \<le> MinFromTime t" "MinFromTime t \<le> 59"
  "0 \<le> SecFromTime t" "SecFromTime t \<le> 59" "0 \<le> msFromTime t" "msFromTime t \<le> 999"
  using pos_mod_bound [of 24 "t div msPerHour"] pos_mod_bound [of 60 "t div msPerMinute"]
    pos_mod_bound [of 60 "t div msPerSecond"] pos_mod_bound [of 1000 t]
  by (simp_all add: HourFromTime_def MinFromTime_def SecFromTime_def msFromTime_def
      msPerSecond_def)

lemma DaysInMonth_le_31: "DaysInMonth y m \<le> 31"
  by (simp add: DaysInMonth_def)

lemma slice_ISOString:
  assumes "0 \<le> YearFromTime t" "YearFromTime t \<le> 9999"
  shows "slice_0_16 (ISOString t) =
           ToZeroPaddedDecimalString (YearFromTime t) 4
           @ ''-'' @ ToZeroPaddedDecimalString (MonthFromTime t + 1) 2
           @ ''-'' @ ToZeroPaddedDecimalString (DateFromTime t) 2
           @ ''T'' @ ToZeroPaddedDecimalString (HourFromTime t) 2
           @ '':'' @ ToZeroPaddedDecimalString (MinFromTime t) 2"
proof -
  have "length (ToZeroPaddedDecimalString (YearFromTime t) 4) = 4"
    using assms by (simp add: length_pad4)
  moreover have "length (ToZeroPaddedDecimalString (MonthFromTime t + 1) 2) = 2"
    using MonthFromTime_range [of t] by (simp add: length_pad2)
  moreover have "length (ToZeroPaddedDecimalString (DateFromTime t) 2) = 2"
    using DateFromTime_range [of t] DaysInMonth_le_31 [of "YearFromTime t" "MonthFromTime t"]
    by (simp add: length_pad2)
  moreover have "length (ToZeroPaddedDecimalString (HourFromTime t) 2) = 2"
    using time_field_ranges [of t] by (simp add: length_pad2)
  moreover have "length (ToZeroPaddedDecimalString (MinFromTime t) 2) = 2"
    using time_field_ranges [of t] by (simp add: length_pad2)
  ultimately show ?thesis
    using assms by (simp add: slice_0_16_def ISOString_def Let_def)
qed

lemma year_time_bounds:
  assumes "y1 \<le> YearFromTime t" "YearFromTime t \<le> y2"
  shows "msPerDay * DayFromYear y1 \<le> t" "t < msPerDay * DayFromYear (y2 + 1)"
proof -
  have "DayFromYear y1 \<le> DayFromYear (YearFromTime t)"
    "DayFromYear (YearFromTime t + 1) \<le> DayFromYear (y2 + 1)"
    using assms by (simp_all add: DayFromYear_mono)
  then have "msPerDay * DayFromYear y1 \<le> msPerDay * DayFromYear (YearFromTime t)"
    "msPerDay * DayFromYear (YearFromTime t + 1) \<le> msPerDay * DayFromYear (y2 + 1)"
    by (simp_all add: msPerDay_def)
  then show "msPerDay * DayFromYear y1 \<le> t" "t < msPerDay * DayFromYear (y2 + 1)"
    using YearFromTime_spec [of t] unfolding TimeFromYear_def by linarith+
qed

lemma Date_parse_local:
  assumes "parse_fields s = Some (y, mo, d, h, mi, sec, ms)" "last s \<noteq> CHR ''Z''"
    and "TimeClip (UTC tz (MakeDate (MakeDay y (mo - 1) d) (MakeTime h mi sec ms))) = Some tv"
  shows "Date_parse tz s = Date tv"
  using assms by (simp add: Date_parse_def Let_def)

text \<open>
  The first sixteen characters of an ISO string with a four-digit year, read back as
  local time: the instant whose local time value is the whole minute of the UTC time
  value the string was made from.
\<close>

lemma parse_slice_ISOString:
  assumes y: "0 \<le> YearFromTime t" "YearFromTime t \<le> 9999"
    and tz: "\<bar>tz (t - t mod msPerMinute) False\<bar> \<le> msPerDay"
  shows "Date_parse tz (slice_0_16 (ISOString t)) =
           Date (t - t mod msPerMinute - tz (t - t mod msPerMinute) False)"
proof -
  let ?Y = "ToZeroPaddedDecimalString (YearFromTime t) 4"
  let ?M = "ToZeroPaddedDecimalString (MonthFromTime t + 1) 2"
  let ?D = "ToZeroPaddedDecimalString (DateFromTime t) 2"
  let ?H = "ToZeroPaddedDecimalString (HourFromTime t) 2"
  let ?Mi = "ToZeroPaddedDecimalString (MinFromTime t) 2"
  let ?s = "?Y @ ''-'' @ ?M @ ''-'' @ ?D @ ''T'' @ ?H @ '':'' @ ?Mi"
  note r = MonthFromTime_range [of t] DateFromTime_range [of t] time_field_ranges [of t]
    DaysInMonth_le_31 [of "YearFromTime t" "MonthFromTime t"]
  have len: "length ?Y = 4" "length ?M = 2" "length ?D = 2" "length ?H = 2" "length ?Mi = 2"
    using y r by (simp_all add: length_pad4 length_pad2)
  have dec: "decimal 0 ?Y = Some (YearFromTime t)" "decimal 0 ?M = Some (MonthFromTime t + 1)"
    "decimal 0 ?D = Some (DateFromTime t)" "decimal 0 ?H = Some (HourFromTime t)"
    "decimal 0 ?Mi = Some (MinFromTime t)"
    using y r by (simp_all add: decimal_ToZeroPaddedDecimalString)
  have fields: "parse_fields ?s =
      Some (YearFromTime t, MonthFromTime t + 1, DateFromTime t, HourFromTime t, MinFromTime t, 0, 0)"
    using r by (intro parse_fields_16 len dec) simp_all
  have "?Mi \<noteq> []" using len(5) by auto
  then have "last ?s = last ?Mi" by simp
  moreover have "last ?Mi \<in> set ?Mi" using \<open>?Mi \<noteq> []\<close> by simp
  then have "digit_value (last ?Mi) \<noteq> None" by (rule ToZeroPaddedDecimalString_all_digits)
  then have "last ?Mi \<noteq> CHR ''Z''" by (auto simp: digit_value_def)
  ultimately have noZ: "last ?s \<noteq> CHR ''Z''" by simp
  define t' where "t' = t - t mod msPerMinute"
  have tv: "MakeDate (MakeDay (YearFromTime t) (MonthFromTime t) (DateFromTime t))
              (MakeTime (HourFromTime t) (MinFromTime t) 0 0) = t'"
    by (simp add: MakeDay_fields time_of_minute t'_def)
  have "msPerDay * DayFromYear 0 \<le> t" "t < msPerDay * DayFromYear (9999 + 1)"
    using year_time_bounds [OF y] by simp_all
  moreover have "0 \<le> t mod msPerMinute" "t mod msPerMinute < msPerMinute"
    by (simp_all add: msPerMinute_def)
  ultimately have "- 62167219260000 \<le> t'" "t' < 253402300800000"
    by (simp_all add: t'_def DayFromYear_def msPerDay_def msPerMinute_def)
  with tz have clip: "TimeClip (UTC tz t') = Some (t' - tz t' False)"
    by (simp add: TimeClip_def UTC_def t'_def [symmetric] msPerDay_def)
  have "Date_parse tz ?s = Date (t' - tz t' False)"
    using fields noZ by (rule Date_parse_local) (simp add: tv clip)
  then show ?thesis
    by (simp only: slice_ISOString [OF y] t'_def)
qed


subsection \<open>Reading back a whole ISO string\<close>

lemma length_3E:
  assumes "length s = 3"
  obtains a b c where "s = [a, b, c]"
proof -
  from assms obtain a s' where s: "s = a # s'" and "length s' = 2"
    by (cases s) simp_all
  then obtain b c where "s' = [b, c]" by (elim length_2E)
  with s that show thesis by simp
qed

lemma length_pad3: "0 \<le> n \<Longrightarrow> n < 1000 \<Longrightarrow> length (ToZeroPaddedDecimalString n 3) = 3"
  using length_digits_3 [of "nat n"] by (simp add: length_ToZeroPaddedDecimalString)

lemma parse_fields_23:
  assumes "length Y = 4" "length M = 2" "length D = 2" "length H = 2" "length Mi = 2"
    and "length S = 2" "length Ms = 3"
    and "decimal 0 Y = Some y" "decimal 0 M = Some mo" "decimal 0 D = Some d"
    and "decimal 0 H = Some h" "decimal 0 Mi = Some mi"
    and "decimal 0 S = Some sec" "decimal 0 Ms = Some ms"
    and "1 \<le> mo" "mo \<le> 12" "1 \<le> d" "d \<le> 31" "h \<le> 23" "mi \<le> 59"
    and "sec \<le> 59"
  shows "parse_fields (Y @ ''-'' @ M @ ''-'' @ D @ ''T'' @ H @ '':'' @ Mi @ '':'' @ S @ ''.'' @ Ms)
         = Some (y, mo, d, h, mi, sec, ms)"
proof -
  obtain y1 y2 y3 y4 where Y: "Y = [y1, y2, y3, y4]" using assms(1) by (elim length_4E)
  obtain m1 m2 where M: "M = [m1, m2]" using assms(2) by (elim length_2E)
  obtain d1 d2 where D: "D = [d1, d2]" using assms(3) by (elim length_2E)
  obtain h1 h2 where H: "H = [h1, h2]" using assms(4) by (elim length_2E)
  obtain n1 n2 where Mi: "Mi = [n1, n2]" using assms(5) by (elim length_2E)
  obtain s1 s2 where S: "S = [s1, s2]" using assms(6) by (elim length_2E)
  obtain f1 f2 f3 where Ms: "Ms = [f1, f2, f3]" using assms(7) by (elim length_3E)
  let ?s = "Y @ ''-'' @ M @ ''-'' @ D @ ''T'' @ H @ '':'' @ Mi @ '':'' @ S @ ''.'' @ Ms"
  have sub: "substring ?s 0 4 = Y" "substring ?s 5 7 = M" "substring ?s 8 10 = D"
    "substring ?s 11 13 = H" "substring ?s 14 16 = Mi" "substring ?s 17 19 = S"
    "drop 20 ?s = Ms"
    by (simp_all add: substring_def Y M D H Mi S Ms)
  have frac: "fraction_ms Ms = Some ms"
    using assms(14) by (simp add: fraction_ms_def Ms)
  have sep: "?s ! 4 = CHR ''-''" "?s ! 7 = CHR ''-''" "?s ! 10 = CHR ''T''"
    "?s ! 13 = CHR '':''" "?s ! 16 = CHR '':''" "?s ! 19 = CHR ''.''" "length ?s = 23"
    by (simp_all add: Y M D H Mi S Ms)
  show ?thesis
    unfolding parse_fields_def Let_def sub sep frac using assms(8-) by simp
qed

lemma time_of_fields:
  "MakeDate (Day t) (MakeTime (HourFromTime t) (MinFromTime t) (SecFromTime t) (msFromTime t)) = t"
proof -
  define w where "w = t div 1000"
  define u where "u = w div 60"
  have mi: "t div 60000 = u"
    using zdiv_zmult2_eq [of 60 t 1000] by (simp add: u_def w_def)
  have h: "t div 3600000 = u div 60"
    using zdiv_zmult2_eq [of 60 t 60000] mi by simp
  have d: "t div 86400000 = u div 60 div 24"
    using zdiv_zmult2_eq [of 24 t 3600000] h by simp
  have "t = 1000 * w + t mod 1000"
    unfolding w_def by simp
  moreover have "w = 60 * u + w mod 60" unfolding u_def by simp
  moreover have "u = 60 * (u div 60) + u mod 60" by simp
  moreover have "u div 60 = 24 * (u div 60 div 24) + (u div 60) mod 24" by simp
  ultimately show ?thesis
    unfolding MakeDate_def MakeTime_def Day_def HourFromTime_def MinFromTime_def
      SecFromTime_def msFromTime_def msPerDay_def msPerHour_def msPerMinute_def
      msPerSecond_def h d mi w_def [symmetric]
    by linarith
qed

lemma Date_parse_Z:
  assumes "parse_fields body = Some (y, mo, d, h, mi, sec, ms)"
    and "TimeClip (MakeDate (MakeDay y (mo - 1) d) (MakeTime h mi sec ms)) = Some tv"
  shows "Date_parse tz (body @ ''Z'') = Date tv"
  using assms by (simp add: Date_parse_def Let_def)

text \<open>
  An ISO string with a four-digit year denotes the instant it was made from, in every
  host: the final \<^verbatim>\<open>Z\<close> makes \<^verbatim>\<open>new Date\<close> read it as UTC.
\<close>

lemma Date_parse_ISOString:
  assumes y: "0 \<le> YearFromTime t" "YearFromTime t \<le> 9999"
  shows "Date_parse tz (ISOString t) = Date t"
proof -
  let ?Y = "ToZeroPaddedDecimalString (YearFromTime t) 4"
  let ?M = "ToZeroPaddedDecimalString (MonthFromTime t + 1) 2"
  let ?D = "ToZeroPaddedDecimalString (DateFromTime t) 2"
  let ?H = "ToZeroPaddedDecimalString (HourFromTime t) 2"
  let ?Mi = "ToZeroPaddedDecimalString (MinFromTime t) 2"
  let ?S = "ToZeroPaddedDecimalString (SecFromTime t) 2"
  let ?Ms = "ToZeroPaddedDecimalString (msFromTime t) 3"
  let ?body = "?Y @ ''-'' @ ?M @ ''-'' @ ?D @ ''T'' @ ?H @ '':'' @ ?Mi @ '':'' @ ?S @ ''.'' @ ?Ms"
  note r = MonthFromTime_range [of t] DateFromTime_range [of t] time_field_ranges [of t]
    DaysInMonth_le_31 [of "YearFromTime t" "MonthFromTime t"]
  have len: "length ?Y = 4" "length ?M = 2" "length ?D = 2" "length ?H = 2" "length ?Mi = 2"
    "length ?S = 2" "length ?Ms = 3"
    using y r by (simp_all add: length_pad4 length_pad2 length_pad3)
  have dec: "decimal 0 ?Y = Some (YearFromTime t)" "decimal 0 ?M = Some (MonthFromTime t + 1)"
    "decimal 0 ?D = Some (DateFromTime t)" "decimal 0 ?H = Some (HourFromTime t)"
    "decimal 0 ?Mi = Some (MinFromTime t)" "decimal 0 ?S = Some (SecFromTime t)"
    "decimal 0 ?Ms = Some (msFromTime t)"
    using y r by (simp_all add: decimal_ToZeroPaddedDecimalString)
  have fields: "parse_fields ?body =
      Some (YearFromTime t, MonthFromTime t + 1, DateFromTime t, HourFromTime t, MinFromTime t,
            SecFromTime t, msFromTime t)"
    using r by (intro parse_fields_23 len dec) simp_all
  have iso: "ISOString t = ?body @ ''Z''"
    using y by (simp add: ISOString_def Let_def)
  have tv: "MakeDate (MakeDay (YearFromTime t) (MonthFromTime t) (DateFromTime t))
              (MakeTime (HourFromTime t) (MinFromTime t) (SecFromTime t) (msFromTime t)) = t"
    by (simp add: MakeDay_fields time_of_fields)
  have "msPerDay * DayFromYear 0 \<le> t" "t < msPerDay * DayFromYear (9999 + 1)"
    using year_time_bounds [OF y] by simp_all
  then have clip: "TimeClip t = Some t"
    by (simp add: TimeClip_def DayFromYear_def msPerDay_def)
  have "Date_parse tz (?body @ ''Z'') = Date t"
    using fields by (rule Date_parse_Z) (simp add: tv clip)
  then show ?thesis by (simp only: iso)
qed

lemma Day_whole_minute: "Day (t - t mod msPerMinute) = Day t"
proof -
  define u where "u = t div 60000"
  have "t - t mod 60000 = 60000 * u"
    using mult_div_mod_eq [of 60000 t] unfolding u_def by linarith
  moreover have "(60000 * u) div 86400000 = u div 1440"
    using zdiv_zmult2_eq [of 1440 "60000 * u" 60000] by simp
  moreover have "t div 86400000 = u div 1440"
    using zdiv_zmult2_eq [of 1440 t 60000] by (simp add: u_def)
  ultimately show ?thesis
    by (simp add: Day_def msPerDay_def msPerMinute_def)
qed

lemma YearFromTime_whole_minute: "YearFromTime (t - t mod msPerMinute) = YearFromTime t"
  by (simp add: YearFromTime_def Day_whole_minute)


subsection \<open>Date strings and calendar days\<close>

lemma append_eq_same_length:
  "length xs = length ys \<Longrightarrow> xs @ us = ys @ vs \<Longrightarrow> xs = ys \<and> us = vs"
  by simp

lemma DateString_cong: "Day t = Day t' \<Longrightarrow> DateString t = DateString t'"
  by (simp add: DateString_def YearFromTime_def WeekDay_def MonthFromTime_def
      DateFromTime_def DayWithinYear_def InLeapYear_def)

lemma WeekDay_range: "0 \<le> WeekDay t" "WeekDay t \<le> 6"
  using pos_mod_bound [of 7 "Day t + 4"] by (simp_all add: WeekDay_def)

lemma length_weekdayName: "0 \<le> w \<Longrightarrow> w \<le> 6 \<Longrightarrow> length (weekdayName w) = 3"
proof -
  assume "0 \<le> w" "w \<le> 6"
  then have "w = 0 \<or> w = 1 \<or> w = 2 \<or> w = 3 \<or> w = 4 \<or> w = 5 \<or> w = 6" by presburger
  then show ?thesis by (elim disjE) (simp_all add: weekdayName_def)
qed

lemma length_monthName:
  assumes "0 \<le> m" "m \<le> 11"
  shows "length (monthName m) = 3"
  using month_cases [OF assms] by (elim disjE) (simp_all add: monthName_def)

lemma monthName_inj:
  assumes "0 \<le> m" "m \<le> 11" "0 \<le> m'" "m' \<le> 11" "monthName m = monthName m'"
  shows "m = m'"
proof -
  let ?names = "[''Jan'', ''Feb'', ''Mar'', ''Apr'', ''May'', ''Jun'',
                 ''Jul'', ''Aug'', ''Sep'', ''Oct'', ''Nov'', ''Dec'']"
  have "distinct ?names" by simp
  moreover have "nat m < length ?names" "nat m' < length ?names" using assms by simp_all
  ultimately have "nat m = nat m'"
    using assms(5) unfolding monthName_def by (simp only: nth_eq_iff_index_eq)
  with assms show ?thesis by simp
qed

lemma signed_string_inj:
  assumes "CHR ''-'' \<notin> set P" "CHR ''-'' \<notin> set P'"
    and "(if a then [] else ''-'') @ P = (if b then [] else ''-'') @ P'"
  shows "a = b \<and> P = P'"
proof (cases a)
  case True
  show ?thesis
  proof (cases b)
    case True
    with \<open>a\<close> assms(3) show ?thesis by simp
  next
    case False
    with \<open>a\<close> assms(3) have "P = CHR ''-'' # P'" by simp
    then have "CHR ''-'' \<in> set P" by simp
    with assms(1) show ?thesis by contradiction
  qed
next
  case False
  show ?thesis
  proof (cases b)
    case True
    with \<open>\<not> a\<close> assms(3) have "P' = CHR ''-'' # P" by simp
    then have "CHR ''-'' \<in> set P'" by simp
    with assms(2) show ?thesis by contradiction
  next
    case False
    with \<open>\<not> a\<close> assms(3) show ?thesis by simp
  qed
qed

lemma no_minus_in_digits: "CHR ''-'' \<notin> set (ToZeroPaddedDecimalString n k)"
proof
  assume "CHR ''-'' \<in> set (ToZeroPaddedDecimalString n k)"
  then have "digit_value (CHR ''-'') \<noteq> None"
    by (rule ToZeroPaddedDecimalString_all_digits)
  then show False by (simp add: digit_value_minus)
qed

lemma decimal_abs_pad4: "decimal 0 (ToZeroPaddedDecimalString \<bar>y\<bar> 4) = Some \<bar>y\<bar>"
  by (rule decimal_ToZeroPaddedDecimalString) simp

lemma year_string_inj:
  assumes "(if 0 \<le> y then [] else ''-'') @ ToZeroPaddedDecimalString \<bar>y\<bar> 4 =
           (if 0 \<le> y' then [] else ''-'') @ ToZeroPaddedDecimalString \<bar>y'\<bar> 4"
  shows "y = y'"
proof -
  have n1: "CHR ''-'' \<notin> set (ToZeroPaddedDecimalString \<bar>y\<bar> 4)" by (rule no_minus_in_digits)
  have n2: "CHR ''-'' \<notin> set (ToZeroPaddedDecimalString \<bar>y'\<bar> 4)" by (rule no_minus_in_digits)
  have s: "(0 \<le> y) = (0 \<le> y') \<and>
      ToZeroPaddedDecimalString \<bar>y\<bar> 4 = ToZeroPaddedDecimalString \<bar>y'\<bar> 4"
    using n1 n2 assms by (rule signed_string_inj)
  then have e: "ToZeroPaddedDecimalString \<bar>y\<bar> 4 = ToZeroPaddedDecimalString \<bar>y'\<bar> 4"
    by (rule conjunct2)
  have "Some \<bar>y\<bar> = decimal 0 (ToZeroPaddedDecimalString \<bar>y\<bar> 4)"
    by (simp only: decimal_abs_pad4)
  also have "\<dots> = decimal 0 (ToZeroPaddedDecimalString \<bar>y'\<bar> 4)"
    by (simp only: e)
  also have "\<dots> = Some \<bar>y'\<bar>" by (simp only: decimal_abs_pad4)
  finally have "\<bar>y\<bar> = \<bar>y'\<bar>" by simp
  moreover from s have "(0 \<le> y) = (0 \<le> y')" by (rule conjunct1)
  ultimately show ?thesis by linarith
qed

lemma DateString_fields:
  assumes "DateString t = DateString t'"
  shows "YearFromTime t = YearFromTime t' \<and> MonthFromTime t = MonthFromTime t'
         \<and> DateFromTime t = DateFromTime t'"
proof -
  let ?W = "weekdayName (WeekDay t)" and ?W' = "weekdayName (WeekDay t')"
  let ?M = "monthName (MonthFromTime t)" and ?M' = "monthName (MonthFromTime t')"
  let ?D = "ToZeroPaddedDecimalString (DateFromTime t) 2"
  let ?D' = "ToZeroPaddedDecimalString (DateFromTime t') 2"
  let ?Y = "(if 0 \<le> YearFromTime t then [] else ''-'') @ ToZeroPaddedDecimalString \<bar>YearFromTime t\<bar> 4"
  let ?Y' = "(if 0 \<le> YearFromTime t' then [] else ''-'') @ ToZeroPaddedDecimalString \<bar>YearFromTime t'\<bar> 4"
  note r = MonthFromTime_range [of t] MonthFromTime_range [of t']
    DateFromTime_range [of t] DateFromTime_range [of t']
    DaysInMonth_le_31 [of "YearFromTime t" "MonthFromTime t"]
    DaysInMonth_le_31 [of "YearFromTime t'" "MonthFromTime t'"]
  have lw: "length ?W = length ?W'"
    using WeekDay_range [of t] WeekDay_range [of t'] by (simp add: length_weekdayName)
  have lm: "length ?M = length ?M'" using r by (simp add: length_monthName)
  have ld: "length ?D = length ?D'" using r by (simp add: length_pad2)
  have e1: "?W @ ('' '' @ ?M @ '' '' @ ?D @ '' '' @ ?Y) = ?W' @ ('' '' @ ?M' @ '' '' @ ?D' @ '' '' @ ?Y')"
    using assms unfolding DateString_def Let_def .
  have "'' '' @ (?M @ '' '' @ ?D @ '' '' @ ?Y) = '' '' @ (?M' @ '' '' @ ?D' @ '' '' @ ?Y')"
    using append_eq_same_length [OF lw e1] by (rule conjunct2)
  then have e2: "?M @ ('' '' @ ?D @ '' '' @ ?Y) = ?M' @ ('' '' @ ?D' @ '' '' @ ?Y')"
    by (rule same_append_eq [THEN iffD1])
  have M: "?M = ?M'"
    using append_eq_same_length [OF lm e2] by (rule conjunct1)
  have "'' '' @ (?D @ '' '' @ ?Y) = '' '' @ (?D' @ '' '' @ ?Y')"
    using append_eq_same_length [OF lm e2] by (rule conjunct2)
  then have e3: "?D @ ('' '' @ ?Y) = ?D' @ ('' '' @ ?Y')"
    by (rule same_append_eq [THEN iffD1])
  have D: "?D = ?D'"
    using append_eq_same_length [OF ld e3] by (rule conjunct1)
  have "'' '' @ ?Y = '' '' @ ?Y'"
    using append_eq_same_length [OF ld e3] by (rule conjunct2)
  then have Y: "?Y = ?Y'"
    by (rule same_append_eq [THEN iffD1])
  have "MonthFromTime t = MonthFromTime t'"
    using M r by (intro monthName_inj) simp_all
  moreover have "DateFromTime t = DateFromTime t'"
  proof -
    have "Some (DateFromTime t) = decimal 0 ?D"
      using r by (simp add: decimal_ToZeroPaddedDecimalString)
    also have "\<dots> = decimal 0 ?D'" by (simp only: D)
    also have "\<dots> = Some (DateFromTime t')"
      using r by (simp add: decimal_ToZeroPaddedDecimalString)
    finally show ?thesis by simp
  qed
  moreover have "YearFromTime t = YearFromTime t'"
    using Y by (rule year_string_inj)
  ultimately show ?thesis by simp
qed

lemma DateString_eq_iff: "DateString t = DateString t' \<longleftrightarrow> Day t = Day t'"
proof
  assume "DateString t = DateString t'"
  then have "MakeDay (YearFromTime t) (MonthFromTime t) (DateFromTime t) =
             MakeDay (YearFromTime t') (MonthFromTime t') (DateFromTime t')"
    using DateString_fields [of t t'] by simp
  then show "Day t = Day t'" by (simp add: MakeDay_fields)
next
  assume "Day t = Day t'"
  then show "DateString t = DateString t'" by (rule DateString_cong)
qed

lemma DateString_not_Invalid: "DateString t \<noteq> ''Invalid Date''"
proof
  assume a: "DateString t = ''Invalid Date''"
  let ?R = "'' '' @ monthName (MonthFromTime t) @ '' ''
        @ ToZeroPaddedDecimalString (DateFromTime t) 2 @ '' ''
        @ (if 0 \<le> YearFromTime t then [] else ''-'')
        @ ToZeroPaddedDecimalString \<bar>YearFromTime t\<bar> 4"
  have l: "length (weekdayName (WeekDay t)) = length ''Inv''"
    using WeekDay_range [of t] by (simp add: length_weekdayName)
  have "DateString t = weekdayName (WeekDay t) @ ?R"
    unfolding DateString_def Let_def ..
  with a have e: "weekdayName (WeekDay t) @ ?R = ''Inv'' @ ''alid Date''"
    by simp
  have "?R = ''alid Date''"
    using append_eq_same_length [OF l e] by (rule conjunct2)
  then show False by simp
qed

lemma same_day_fields:
  "Day t = Day t' \<longleftrightarrow>
     YearFromTime t = YearFromTime t' \<and> MonthFromTime t = MonthFromTime t'
     \<and> DateFromTime t = DateFromTime t'"
proof
  assume "Day t = Day t'"
  then have "DateString t = DateString t'" by (rule DateString_cong)
  then show "YearFromTime t = YearFromTime t' \<and> MonthFromTime t = MonthFromTime t'
     \<and> DateFromTime t = DateFromTime t'"
    by (rule DateString_fields)
next
  assume "YearFromTime t = YearFromTime t' \<and> MonthFromTime t = MonthFromTime t'
     \<and> DateFromTime t = DateFromTime t'"
  then have "MakeDay (YearFromTime t) (MonthFromTime t) (DateFromTime t) =
             MakeDay (YearFromTime t') (MonthFromTime t') (DateFromTime t')"
    by simp
  then show "Day t = Day t'" by (simp add: MakeDay_fields)
qed


section \<open>Properties of the calendar view\<close>

text \<open>
  C8, as the code has it. The host's zone has offsets of less than a day, as the
  specification of \<^verbatim>\<open>Date\<close> demands of every zone, and may change its offset within the
  month. For a date whose local year is outside 0 to 99 and between -271820 and 275759
  and for a zone that skips no day of the date's month, so that local midnight of each
  day, taken to UTC and back, is a time of that day, \<^verbatim>\<open>getDaysInMonth\<close> returns \<open>w\<close> nulls
  followed by the dates \<^verbatim>\<open>new Date(year, month, i)\<close> for \<open>i\<close> from 1 to \<open>n\<close>, and nothing
  else: \<open>w\<close> is the weekday (0 for Sunday) of the first day of the month, which is what
  \<^verbatim>\<open>getDay\<close> gives for the first date of the list, \<open>n\<close> is the number of days of the month,
  and the \<open>i\<close>-th date is the instant of local midnight of day \<open>i\<close> and is day \<open>i\<close> of that
  month of that year in local time.
\<close>

theorem getDaysInMonth_grid:
  assumes date: "getFullYear tz date = Some y" "getMonth tz date = Some m"
    and yr: "y < 0 \<or> 99 < y" and y: "- 271820 \<le> y" "y \<le> 275759"
    and offsets: "\<forall>t isUTC. \<bar>tz t isUTC\<bar> < 86400000"
    and days: "\<forall>i \<in> {1..DaysInMonth y m}.
                 (MakeDay y m i * 86400000 - tz (MakeDay y m i * 86400000) False
                  + tz (MakeDay y m i * 86400000 - tz (MakeDay y m i * 86400000) False) True)
                 div 86400000 = MakeDay y m i"
  shows "getDaysInMonth tz date =
           replicate (nat (WeekDay (MakeDate (MakeDay y m 1) 0))) None
           @ map (\<lambda>i. Some (Date (MakeDay y m i * 86400000
                                    - tz (MakeDay y m i * 86400000) False)))
               [1..DaysInMonth y m]
       \<and> getDay tz (new_Date tz (Some y) (Some m) (Some 1))
           = Some (WeekDay (MakeDate (MakeDay y m 1) 0))
       \<and> (\<forall>i \<in> {1..DaysInMonth y m}.
             new_Date tz (Some y) (Some m) (Some i)
               = Date (MakeDay y m i * 86400000 - tz (MakeDay y m i * 86400000) False)
           \<and> getFullYear tz (new_Date tz (Some y) (Some m) (Some i)) = Some y
           \<and> getMonth tz (new_Date tz (Some y) (Some m) (Some i)) = Some m
           \<and> getDate tz (new_Date tz (Some y) (Some m) (Some i)) = Some i
           \<and> YearFromTime (MakeDay y m i * 86400000) = y
           \<and> MonthFromTime (MakeDay y m i * 86400000) = m
           \<and> DateFromTime (MakeDay y m i * 86400000) = i)
       \<and> length (getDaysInMonth tz date) =
           nat (WeekDay (MakeDate (MakeDay y m 1) 0)) + nat (DaysInMonth y m)"
proof -
  obtain t where t: "date = Date t"
    using date(1) by (cases date) (simp_all add: getFullYear_def)
  have m: "0 \<le> m" "m \<le> 11"
    using date(2) MonthFromTime_range [of "LocalTime tz t"] by (auto simp: t getMonth_def)
  have day: "new_Date tz (Some y) (Some m) (Some i)
               = Date (MakeDay y m i * 86400000 - tz (MakeDay y m i * 86400000) False)
      \<and> getFullYear tz (new_Date tz (Some y) (Some m) (Some i)) = Some y
      \<and> getMonth tz (new_Date tz (Some y) (Some m) (Some i)) = Some m
      \<and> getDate tz (new_Date tz (Some y) (Some m) (Some i)) = Some i
      \<and> getDay tz (new_Date tz (Some y) (Some m) (Some i))
          = Some (WeekDay (MakeDate (MakeDay y m i) 0))
      \<and> YearFromTime (MakeDay y m i * 86400000) = y
      \<and> MonthFromTime (MakeDay y m i * 86400000) = m
      \<and> DateFromTime (MakeDay y m i * 86400000) = i"
    if i: "1 \<le> i" "i \<le> DaysInMonth y m" for i
  proof -
    let ?t = "MakeDay y m i * 86400000"
    have "\<bar>tz (MakeDay y m i * msPerDay) False\<bar> \<le> msPerDay"
      using offsets [rule_format, of ?t False] by (simp add: msPerDay_def)
    from new_Date_day [where tz = tz, OF yr y m i this]
    have nd: "new_Date tz (Some y) (Some m) (Some i) = Date (?t - tz ?t False)"
      by (simp add: msPerDay_def)
    from days i have "(?t - tz ?t False + tz (?t - tz ?t False) True) div 86400000
        = MakeDay y m i"
      by simp
    then have d: "Day (LocalTime tz (?t - tz ?t False)) = MakeDay y m i"
      by (simp add: Day_def LocalTime_def msPerDay_def)
    have "Day ?t = MakeDay y m i"
      by (simp add: Day_def msPerDay_def)
    from fields_of_MakeDay [OF m i this] local_fields_of_day [OF m i d]
    show ?thesis by (simp only: nd simp_thms)
  qed
  have one: "(1::int) \<le> 1" "1 \<le> DaysInMonth y m"
    using DaysInMonth_pos [of y m] by simp_all
  have last: "(1::int) \<le> DaysInMonth y m" "DaysInMonth y m \<le> DaysInMonth y m"
    using DaysInMonth_pos [of y m] by simp_all
  have first: "getDay tz (new_Date tz (Some y) (Some m) (Some 1))
      = Some (WeekDay (MakeDate (MakeDay y m 1) 0))"
    using day [OF one] by blast
  have "getDate tz (new_Date tz (Some y) (Some m) (Some (DaysInMonth y m)))
      = Some (DaysInMonth y m)"
    using day [OF last] by blast
  then have n: "getDate tz (new_Date tz (Some y) (Some (m + 1)) (Some 0))
      = Some (DaysInMonth y m)"
    by (simp only: new_Date_lastDay [OF yr m])
  have "new_Date tz (Some y) (Some m) (Some i)
      = Date (MakeDay y m i * 86400000 - tz (MakeDay y m i * 86400000) False)"
    if "i \<in> set [1..DaysInMonth y m]" for i
    using that day [of i] by simp
  then have "map (\<lambda>i. Some (new_Date tz (Some y) (Some m) (Some i))) [1..DaysInMonth y m]
      = map (\<lambda>i. Some (Date (MakeDay y m i * 86400000 - tz (MakeDay y m i * 86400000) False)))
          [1..DaysInMonth y m]"
    by (intro map_cong [OF refl]) simp
  then have grid: "getDaysInMonth tz date =
      replicate (nat (WeekDay (MakeDate (MakeDay y m 1) 0))) None
      @ map (\<lambda>i. Some (Date (MakeDay y m i * 86400000 - tz (MakeDay y m i * 86400000) False)))
          [1..DaysInMonth y m]"
    by (simp add: getDaysInMonth_def Let_def date first n push_nulls_eq push_days_eq)
  have fields: "\<forall>i \<in> {1..DaysInMonth y m}.
             new_Date tz (Some y) (Some m) (Some i)
               = Date (MakeDay y m i * 86400000 - tz (MakeDay y m i * 86400000) False)
           \<and> getFullYear tz (new_Date tz (Some y) (Some m) (Some i)) = Some y
           \<and> getMonth tz (new_Date tz (Some y) (Some m) (Some i)) = Some m
           \<and> getDate tz (new_Date tz (Some y) (Some m) (Some i)) = Some i
           \<and> YearFromTime (MakeDay y m i * 86400000) = y
           \<and> MonthFromTime (MakeDay y m i * 86400000) = m
           \<and> DateFromTime (MakeDay y m i * 86400000) = i"
  proof
    fix i assume "i \<in> {1..DaysInMonth y m}"
    then have "1 \<le> i" "i \<le> DaysInMonth y m" by simp_all
    from day [OF this]
    show "new_Date tz (Some y) (Some m) (Some i)
               = Date (MakeDay y m i * 86400000 - tz (MakeDay y m i * 86400000) False)
           \<and> getFullYear tz (new_Date tz (Some y) (Some m) (Some i)) = Some y
           \<and> getMonth tz (new_Date tz (Some y) (Some m) (Some i)) = Some m
           \<and> getDate tz (new_Date tz (Some y) (Some m) (Some i)) = Some i
           \<and> YearFromTime (MakeDay y m i * 86400000) = y
           \<and> MonthFromTime (MakeDay y m i * 86400000) = m
           \<and> DateFromTime (MakeDay y m i * 86400000) = i"
      by blast
  qed
  have len: "length (getDaysInMonth tz date) =
      nat (WeekDay (MakeDate (MakeDay y m 1) 0)) + nat (DaysInMonth y m)"
    using DaysInMonth_pos [of y m] by (simp add: grid)
  show ?thesis using grid first fields len by blast
qed

text \<open>
  March 2024 in New York, where the offset changes on the 10th, asked for at 22:00 of
  31 March there, which is 1 April 02:00 UTC: five nulls, then the 31 days, the first to
  the tenth at 05:00 UTC and the eleventh to the last at 04:00 UTC.
\<close>

theorem getDaysInMonth_grid_witness:
  "getFullYear America_New_York (Date 1711936800000) = Some 2024
   \<and> getMonth America_New_York (Date 1711936800000) = Some 2
   \<and> getDaysInMonth America_New_York (Date 1711936800000) =
       replicate 5 None
       @ map (\<lambda>i. Some (Date (1709269200000 + (i - 1) * 86400000))) [1..10]
       @ map (\<lambda>i. Some (Date (1710129600000 + (i - 11) * 86400000))) [11..31]
   \<and> map (map_option (getDate America_New_York)) (getDaysInMonth America_New_York (Date 1711936800000))
       = replicate 5 None @ map (\<lambda>i. Some (Some i)) [1..31]"
proof -
  have y: "getFullYear America_New_York (Date 1711936800000) = Some 2024" by code_simp
  have m: "getMonth America_New_York (Date 1711936800000) = Some 2" by code_simp
  have r: "(2024::int) < 0 \<or> 99 < (2024::int)" "- 271820 \<le> (2024::int)" "(2024::int) \<le> 275759"
    by simp_all
  have offsets: "\<forall>t isUTC. \<bar>America_New_York t isUTC\<bar> < 86400000"
    by (simp add: America_New_York_offsets)
  have days: "\<forall>i \<in> {1..DaysInMonth 2024 2}.
      (MakeDay 2024 2 i * 86400000 - America_New_York (MakeDay 2024 2 i * 86400000) False
       + America_New_York
           (MakeDay 2024 2 i * 86400000 - America_New_York (MakeDay 2024 2 i * 86400000) False)
           True)
      div 86400000 = MakeDay 2024 2 i"
  proof -
    have "list_all (\<lambda>i.
        (MakeDay 2024 2 i * 86400000 - America_New_York (MakeDay 2024 2 i * 86400000) False
         + America_New_York
             (MakeDay 2024 2 i * 86400000
              - America_New_York (MakeDay 2024 2 i * 86400000) False)
             True)
        div 86400000 = MakeDay 2024 2 i) [1..DaysInMonth 2024 2]"
      by code_simp
    then show ?thesis by (simp add: list_all_iff)
  qed
  have "getDaysInMonth America_New_York (Date 1711936800000) =
      replicate (nat (WeekDay (MakeDate (MakeDay 2024 2 1) 0))) None
      @ map (\<lambda>i. Some (Date (MakeDay 2024 2 i * 86400000
                               - America_New_York (MakeDay 2024 2 i * 86400000) False)))
          [1..DaysInMonth 2024 2]"
    using getDaysInMonth_grid [OF y m r offsets days] by (rule conjunct1)
  also have "\<dots> = replicate 5 None
       @ map (\<lambda>i. Some (Date (1709269200000 + (i - 1) * 86400000))) [1..10]
       @ map (\<lambda>i. Some (Date (1710129600000 + (i - 11) * 86400000))) [11..31]"
    by code_simp
  finally have grid: "getDaysInMonth America_New_York (Date 1711936800000) =
       replicate 5 None
       @ map (\<lambda>i. Some (Date (1709269200000 + (i - 1) * 86400000))) [1..10]
       @ map (\<lambda>i. Some (Date (1710129600000 + (i - 11) * 86400000))) [11..31]" .
  have "map (map_option (getDate America_New_York))
         (replicate 5 None
          @ map (\<lambda>i. Some (Date (1709269200000 + (i - 1) * 86400000))) [1..10]
          @ map (\<lambda>i. Some (Date (1710129600000 + (i - 11) * 86400000))) [11..31])
       = replicate 5 None @ map (\<lambda>i. Some (Some i)) [1..31]"
    by code_simp
  with grid y m show ?thesis by (simp only:)
qed

text \<open>
  C8 as stated fails for the months of the years 0 to 99, which the \<^verbatim>\<open>Date\<close>
  constructor reads as 1900 to 1999, at the end of the range of \<^verbatim>\<open>Date\<close>, and for a month
  of which the host's zone skips a day. In a UTC host, \<^verbatim>\<open>prevMonth\<close> leads from January
  0100 to 1 December 0099, a Tuesday; for that date the list starts with three nulls,
  not two, and its dates are those of December 1999. For 13 September 275760, the last
  day a \<^verbatim>\<open>Date\<close> can hold, the list is the single null of the weekday offset and holds no
  day. In Apia, December 2011 had no 30th: the list for 1 December 2011 has four nulls
  and 31 dates, of which the thirtieth and the thirty-first are both 31 December.
\<close>

theorem getDaysInMonth_two_digit_year:
  "getFullYear Etc_UTC (Date (- 59011459200000)) = Some 100
   \<and> getMonth Etc_UTC (Date (- 59011459200000)) = Some 0
   \<and> prevMonth Etc_UTC (Date (- 59011459200000)) = Date (- 59014137600000)
   \<and> getFullYear Etc_UTC (Date (- 59014137600000)) = Some 99
   \<and> getMonth Etc_UTC (Date (- 59014137600000)) = Some 11
   \<and> getDate Etc_UTC (Date (- 59014137600000)) = Some 1
   \<and> WeekDay (MakeDate (MakeDay 99 11 1) 0) = 2
   \<and> take 4 (getDaysInMonth Etc_UTC (Date (- 59014137600000)))
       = [None, None, None, Some (Date 944006400000)]
   \<and> getFullYear Etc_UTC (Date 944006400000) = Some 1999
   \<and> getFullYear Etc_UTC (Date 8640000000000000) = Some 275760
   \<and> getMonth Etc_UTC (Date 8640000000000000) = Some 8
   \<and> getDaysInMonth Etc_UTC (Date 8640000000000000) = [None]
   \<and> getFullYear Pacific_Apia (Date 1322733600000) = Some 2011
   \<and> getMonth Pacific_Apia (Date 1322733600000) = Some 11
   \<and> getDate Pacific_Apia (Date 1322733600000) = Some 1
   \<and> length (getDaysInMonth Pacific_Apia (Date 1322733600000)) = 35
   \<and> drop 32 (getDaysInMonth Pacific_Apia (Date 1322733600000))
       = [Some (Date 1325152800000), Some (Date 1325239200000), Some (Date 1325239200000)]
   \<and> map (getDate Pacific_Apia) [Date 1325152800000, Date 1325239200000, Date 1325239200000]
       = [Some 29, Some 31, Some 31]"
  by code_simp

text \<open>What decides whether an event is listed on a day: the two date strings.\<close>

lemma toDateString_eq_iff:
  "toDateString tz d = toDateString tz (Date t) \<longleftrightarrow>
     (\<exists>s. d = Date s \<and> Day (LocalTime tz s) = Day (LocalTime tz t))"
proof (cases d)
  case (Date s)
  then show ?thesis by (simp add: toDateString_def DateString_eq_iff)
next
  case Invalid_Date
  then show ?thesis
    using DateString_not_Invalid [of "LocalTime tz t"] by (auto simp: toDateString_def)
qed

lemma same_calendar_day_iff:
  "same_calendar_day tz d (Date t) \<longleftrightarrow>
     (\<exists>s. d = Date s \<and> Day (LocalTime tz s) = Day (LocalTime tz t))"
proof (cases d)
  case (Date s)
  then show ?thesis
    using same_day_fields [of "LocalTime tz s" "LocalTime tz t"]
    by (simp add: same_calendar_day_def getFullYear_def getMonth_def getDate_def)
next
  case Invalid_Date
  then show ?thesis by (simp add: same_calendar_day_def getFullYear_def)
qed

text \<open>
  C9. For a day cell holding a valid date, the events considered are exactly the events
  whose start time is a valid date on the same local day as the cell's date, in the
  order of the event list: the local time of an instant is the instant plus the offset
  the host's zone has at that instant, and two local times are on the same day when
  they have the same number of whole days since the epoch, which is when year, month
  and day of the month agree. The titles of the first two of these events are shown,
  and the \<^verbatim>\<open>+k more\<close> line is shown exactly when there are more than two, with \<open>k\<close> the
  number of them minus two.
\<close>

theorem day_cell_events:
  "getEventsForDate tz events (Date t) =
     filter (\<lambda>event. case start_time event of
                       Date s \<Rightarrow> (s + tz s True) div 86400000 = (t + tz t True) div 86400000
                     | Invalid_Date \<Rightarrow> False) events
   \<and> (\<forall>s. (s + tz s True) div 86400000 = (t + tz t True) div 86400000 \<longleftrightarrow>
          YearFromTime (s + tz s True) = YearFromTime (t + tz t True)
        \<and> MonthFromTime (s + tz s True) = MonthFromTime (t + tz t True)
        \<and> DateFromTime (s + tz s True) = DateFromTime (t + tz t True))
   \<and> (\<forall>d. same_calendar_day tz d (Date t) \<longleftrightarrow>
          (case d of Date s \<Rightarrow> (s + tz s True) div 86400000 = (t + tz t True) div 86400000
           | Invalid_Date \<Rightarrow> False))
   \<and> shown (render_day_events tz events (Date t)) =
       map CalendarEvent.title (take 2 (getEventsForDate tz events (Date t)))
   \<and> length (shown (render_day_events tz events (Date t))) =
       min 2 (length (getEventsForDate tz events (Date t)))
   \<and> (more_count (render_day_events tz events (Date t)) \<noteq> None \<longleftrightarrow>
        2 < length (getEventsForDate tz events (Date t)))
   \<and> (\<forall>k. more_count (render_day_events tz events (Date t)) = Some k \<longrightarrow>
        k + 2 = length (getEventsForDate tz events (Date t)))
   \<and> render_cell tz events (Some (Date t)) = Some (render_day_events tz events (Date t))
   \<and> render_cell tz events None = None"
proof -
  have same: "same_calendar_day tz d (Date t) \<longleftrightarrow>
          (case d of Date s \<Rightarrow> (s + tz s True) div 86400000 = (t + tz t True) div 86400000
           | Invalid_Date \<Rightarrow> False)" for d
    by (cases d) (simp_all add: same_calendar_day_iff Day_def LocalTime_def msPerDay_def)
  have "toDateString tz d = toDateString tz (Date t) \<longleftrightarrow>
          (case d of Date s \<Rightarrow> (s + tz s True) div 86400000 = (t + tz t True) div 86400000
           | Invalid_Date \<Rightarrow> False)" for d
    by (cases d) (simp_all add: toDateString_eq_iff Day_def LocalTime_def msPerDay_def)
  then have events: "getEventsForDate tz events (Date t) =
     filter (\<lambda>event. case start_time event of
                       Date s \<Rightarrow> (s + tz s True) div 86400000 = (t + tz t True) div 86400000
                     | Invalid_Date \<Rightarrow> False) events"
    by (simp add: getEventsForDate_def Let_def)
  have fields: "(s + tz s True) div 86400000 = (t + tz t True) div 86400000 \<longleftrightarrow>
          YearFromTime (s + tz s True) = YearFromTime (t + tz t True)
        \<and> MonthFromTime (s + tz s True) = MonthFromTime (t + tz t True)
        \<and> DateFromTime (s + tz s True) = DateFromTime (t + tz t True)" for s
    using same_day_fields [of "s + tz s True" "t + tz t True"]
    by (simp add: Day_def msPerDay_def)
  have render: "shown (render_day_events tz events (Date t)) =
       map CalendarEvent.title (take 2 (getEventsForDate tz events (Date t)))
   \<and> length (shown (render_day_events tz events (Date t))) =
       min 2 (length (getEventsForDate tz events (Date t)))
   \<and> (more_count (render_day_events tz events (Date t)) \<noteq> None \<longleftrightarrow>
        2 < length (getEventsForDate tz events (Date t)))
   \<and> (\<forall>k. more_count (render_day_events tz events (Date t)) = Some k \<longrightarrow>
        k + 2 = length (getEventsForDate tz events (Date t)))
   \<and> render_cell tz events (Some (Date t)) = Some (render_day_events tz events (Date t))
   \<and> render_cell tz events None = None"
    by (auto simp: render_day_events_def render_cell_def)
  from events fields same render show ?thesis by blast
qed

text \<open>
  In New York, the cell of 15 January 2024 lists the event of 16 January 03:00 UTC,
  which is 22:00 of the 15th there, and not the event of 15 January 04:30 UTC, which is
  23:30 of the 14th. The cell of 10 March 2024, the day the offset changes from five
  hours to four, lists the event of 11 March 03:30 UTC and not that of 04:30 UTC, which
  is 00:30 of the 11th.
\<close>

theorem day_cell_events_witness:
  "getEventsForDate America_New_York
     [\<lparr>CalendarEvent.title = ''Late'', start_time = Date 1705374000000, all_day = False\<rparr>,
      \<lparr>CalendarEvent.title = ''Early'', start_time = Date 1705293000000, all_day = False\<rparr>,
      \<lparr>CalendarEvent.title = ''Trip'', start_time = Date 1705492800000, all_day = True\<rparr>,
      \<lparr>CalendarEvent.title = ''Lunch'', start_time = Date 1705338000000, all_day = False\<rparr>,
      \<lparr>CalendarEvent.title = ''Review'', start_time = Date 1705327200000, all_day = False\<rparr>,
      \<lparr>CalendarEvent.title = ''Broken'', start_time = Invalid_Date, all_day = False\<rparr>]
     (Date 1705294800000)
   = [\<lparr>CalendarEvent.title = ''Late'', start_time = Date 1705374000000, all_day = False\<rparr>,
      \<lparr>CalendarEvent.title = ''Lunch'', start_time = Date 1705338000000, all_day = False\<rparr>,
      \<lparr>CalendarEvent.title = ''Review'', start_time = Date 1705327200000, all_day = False\<rparr>]
   \<and> render_day_events America_New_York
     [\<lparr>CalendarEvent.title = ''Late'', start_time = Date 1705374000000, all_day = False\<rparr>,
      \<lparr>CalendarEvent.title = ''Early'', start_time = Date 1705293000000, all_day = False\<rparr>,
      \<lparr>CalendarEvent.title = ''Trip'', start_time = Date 1705492800000, all_day = True\<rparr>,
      \<lparr>CalendarEvent.title = ''Lunch'', start_time = Date 1705338000000, all_day = False\<rparr>,
      \<lparr>CalendarEvent.title = ''Review'', start_time = Date 1705327200000, all_day = False\<rparr>,
      \<lparr>CalendarEvent.title = ''Broken'', start_time = Invalid_Date, all_day = False\<rparr>]
     (Date 1705294800000)
   = \<lparr>shown = [''Late'', ''Lunch''], more_count = Some 1\<rparr>
   \<and> map CalendarEvent.title (getEventsForDate America_New_York
     [\<lparr>CalendarEvent.title = ''Evening'', start_time = Date 1710127800000, all_day = False\<rparr>,
      \<lparr>CalendarEvent.title = ''Night'', start_time = Date 1710131400000, all_day = False\<rparr>]
     (Date 1710046800000)) = [''Evening'']"
proof -
  let ?events = "[\<lparr>CalendarEvent.title = ''Late'', start_time = Date 1705374000000, all_day = False\<rparr>,
      \<lparr>CalendarEvent.title = ''Early'', start_time = Date 1705293000000, all_day = False\<rparr>,
      \<lparr>CalendarEvent.title = ''Trip'', start_time = Date 1705492800000, all_day = True\<rparr>,
      \<lparr>CalendarEvent.title = ''Lunch'', start_time = Date 1705338000000, all_day = False\<rparr>,
      \<lparr>CalendarEvent.title = ''Review'', start_time = Date 1705327200000, all_day = False\<rparr>,
      \<lparr>CalendarEvent.title = ''Broken'', start_time = Invalid_Date, all_day = False\<rparr>]"
  let ?march = "[\<lparr>CalendarEvent.title = ''Evening'', start_time = Date 1710127800000, all_day = False\<rparr>,
      \<lparr>CalendarEvent.title = ''Night'', start_time = Date 1710131400000, all_day = False\<rparr>]"
  have "getEventsForDate America_New_York ?events (Date 1705294800000) =
      filter (\<lambda>event. case start_time event of
                Date s \<Rightarrow> (s + America_New_York s True) div 86400000
                          = (1705294800000 + America_New_York 1705294800000 True) div 86400000
              | Invalid_Date \<Rightarrow> False) ?events"
    using day_cell_events [of America_New_York ?events 1705294800000] by (rule conjunct1)
  also have "\<dots> = [\<lparr>CalendarEvent.title = ''Late'', start_time = Date 1705374000000, all_day = False\<rparr>,
      \<lparr>CalendarEvent.title = ''Lunch'', start_time = Date 1705338000000, all_day = False\<rparr>,
      \<lparr>CalendarEvent.title = ''Review'', start_time = Date 1705327200000, all_day = False\<rparr>]"
    by code_simp
  finally have e: "getEventsForDate America_New_York ?events (Date 1705294800000) =
      [\<lparr>CalendarEvent.title = ''Late'', start_time = Date 1705374000000, all_day = False\<rparr>,
      \<lparr>CalendarEvent.title = ''Lunch'', start_time = Date 1705338000000, all_day = False\<rparr>,
      \<lparr>CalendarEvent.title = ''Review'', start_time = Date 1705327200000, all_day = False\<rparr>]" .
  have "getEventsForDate America_New_York ?march (Date 1710046800000) =
      filter (\<lambda>event. case start_time event of
                Date s \<Rightarrow> (s + America_New_York s True) div 86400000
                          = (1710046800000 + America_New_York 1710046800000 True) div 86400000
              | Invalid_Date \<Rightarrow> False) ?march"
    using day_cell_events [of America_New_York ?march 1710046800000] by (rule conjunct1)
  also have "\<dots> = [\<lparr>CalendarEvent.title = ''Evening'', start_time = Date 1710127800000, all_day = False\<rparr>]"
    by code_simp
  finally have "map CalendarEvent.title (getEventsForDate America_New_York ?march (Date 1710046800000))
      = [''Evening'']"
    by simp
  with e show ?thesis by (simp add: render_day_events_def)
qed


section \<open>Properties of the task form\<close>

lemma handle_keeps_dates:
  "\<not> touches_dates e \<Longrightarrow>
     due_date (formData (TaskForm_handle e st)) = due_date (formData st)
     \<and> reminder (formData (TaskForm_handle e st)) = reminder (formData st)"
  by (cases e)
     (simp_all add: handleAddCategory_def TaskForm_fetchCategories_def Let_def split: sum.splits)

lemma run_keeps_dates:
  "TaskForm_run st evs = Some st' \<Longrightarrow> \<forall>e \<in> set evs. \<not> touches_dates e \<Longrightarrow>
     due_date (formData st') = due_date (formData st)
     \<and> reminder (formData st') = reminder (formData st)"
proof (induction evs arbitrary: st)
  case Nil
  then show ?case by simp
next
  case (Cons e evs)
  from Cons.prems(1) have run: "TaskForm_run (TaskForm_handle e st) evs = Some st'"
    by (simp split: if_splits)
  from Cons.prems(2) have "\<not> touches_dates e" "\<forall>e \<in> set evs. \<not> touches_dates e"
    by simp_all
  with Cons.IH [OF run] handle_keeps_dates [of e st] show ?case by simp
qed

lemma slice_ISOString_truthy:
  assumes "0 \<le> YearFromTime t" "YearFromTime t \<le> 9999"
  shows "truthy (slice_0_16 (ISOString t))"
  by (simp add: slice_ISOString [OF assms] truthy_def)

text \<open>
  What a date field holds after mounting and what \<^verbatim>\<open>handleSubmit\<close> makes of it, in any
  zone with offsets of at most a day: the stored instant is cut down to the minute, and
  its UTC time value is read as a local time value.
\<close>

lemma submitted_initial_date:
  assumes "four_digit_year v" "\<forall>t. \<bar>tz t False\<bar> \<le> msPerDay"
  shows "\<exists>field. initial_date v = Inr field \<and>
           submitted_date tz field =
             Inr (case v of
                    Some (Date t) \<Rightarrow>
                      Some (ISOString (t - t mod msPerMinute - tz (t - t mod msPerMinute) False))
                  | _ \<Rightarrow> None)"
proof (cases v)
  case None
  then show ?thesis by (simp add: initial_date_def submitted_date_def truthy_def)
next
  case (Some d)
  show ?thesis
  proof (cases d)
    case (Date t)
    with Some assms(1) have y: "0 \<le> YearFromTime t" "YearFromTime t \<le> 9999"
      by (simp_all add: four_digit_year_def)
    have tz: "\<bar>tz (t - t mod msPerMinute) False\<bar> \<le> msPerDay"
      using assms(2) by simp
    have "initial_date v = Inr (slice_0_16 (ISOString t))"
      by (simp add: Some Date initial_date_def toISOString_def)
    moreover have "submitted_date tz (slice_0_16 (ISOString t)) =
        Inr (Some (ISOString (t - t mod msPerMinute - tz (t - t mod msPerMinute) False)))"
      by (simp add: submitted_date_def slice_ISOString_truthy [OF y]
          parse_slice_ISOString [where tz = tz, OF y tz] toISOString_def)
    ultimately show ?thesis by (simp add: Some Date)
  next
    case Invalid_Date
    with Some assms(1) show ?thesis by (simp add: four_digit_year_def)
  qed
qed

lemma submitted_initial_date_UTC:
  assumes "four_digit_year v"
  shows "\<exists>field. initial_date v = Inr field
           \<and> submitted_date Etc_UTC field = Inr (whole_minute_ISO v)"
proof -
  have "(case v of
           Some (Date t) \<Rightarrow>
             Some (ISOString (t - t mod msPerMinute - Etc_UTC (t - t mod msPerMinute) False))
         | _ \<Rightarrow> None)
      = whole_minute_ISO v"
    by (simp add: whole_minute_ISO_def split: option.splits Date.splits)
  moreover have "\<forall>t. \<bar>Etc_UTC t False\<bar> \<le> msPerDay" by (simp add: msPerDay_def)
  ultimately show ?thesis
    using submitted_initial_date [OF assms, of Etc_UTC] by simp
qed

text \<open>The instant that the submitted string denotes, whoever reads it.\<close>

lemma whole_minute_ISO_instant:
  assumes "four_digit_year v"
  shows "map_option (Date_parse tz) (whole_minute_ISO v) = map_option whole_minute v"
proof (cases v)
  case None
  then show ?thesis by (simp add: whole_minute_ISO_def)
next
  case (Some d)
  show ?thesis
  proof (cases d)
    case (Date t)
    with Some assms have "0 \<le> YearFromTime (t - t mod msPerMinute)"
      "YearFromTime (t - t mod msPerMinute) \<le> 9999"
      by (simp_all add: four_digit_year_def YearFromTime_whole_minute)
    then have "Date_parse tz (ISOString (t - t mod msPerMinute)) = Date (t - t mod msPerMinute)"
      by (rule Date_parse_ISOString)
    then show ?thesis by (simp add: Some Date whole_minute_ISO_def whole_minute_def)
  next
    case Invalid_Date
    with Some assms show ?thesis by (simp add: four_digit_year_def)
  qed
qed

text \<open>
  C1, as the code has it. In a host whose local time is UTC, for a task whose due date
  and reminder are each absent or a date with a four-digit year: the form mounts, and
  whatever the user does short of changing the two date fields, \<^verbatim>\<open>handleSubmit\<close> returns
  data in which each date is the ISO string of the stored instant cut down to the whole
  minute. Read back by \<^verbatim>\<open>new Date\<close> in any host, that string is the stored instant cut
  down to the whole minute, which is the stored instant itself when its seconds and
  milliseconds are zero.
\<close>

theorem edit_round_trip_UTC:
  assumes "four_digit_year (due_date task)" "four_digit_year (reminder task)"
  shows "\<exists>st0. TaskForm_init (Some task) = Inr st0
          \<and> (\<forall>evs st. TaskForm_run st0 evs = Some st \<longrightarrow> (\<forall>e \<in> set evs. \<not> touches_dates e) \<longrightarrow>
                (\<exists>d. handleSubmit Etc_UTC (formData st) = Inr d
                    \<and> due_date d = whole_minute_ISO (due_date task)
                    \<and> reminder d = whole_minute_ISO (reminder task)
                    \<and> (\<forall>tz. map_option (Date_parse tz) (due_date d)
                                = map_option whole_minute (due_date task)
                             \<and> map_option (Date_parse tz) (reminder d)
                                = map_option whole_minute (reminder task))))
          \<and> (\<forall>t. t mod msPerMinute = 0 \<longrightarrow> whole_minute (Date t) = Date t)"
proof -
  obtain due where due: "initial_date (due_date task) = Inr due"
    "submitted_date Etc_UTC due = Inr (whole_minute_ISO (due_date task))"
    using submitted_initial_date_UTC [OF assms(1)] by blast
  obtain rem where rem: "initial_date (reminder task) = Inr rem"
    "submitted_date Etc_UTC rem = Inr (whole_minute_ISO (reminder task))"
    using submitted_initial_date_UTC [OF assms(2)] by blast
  obtain st0 where init: "TaskForm_init (Some task) = Inr st0"
    and f0: "due_date (formData st0) = due" "reminder (formData st0) = rem"
    by (simp add: TaskForm_init_def due(1) rem(1))
  have "\<exists>d. handleSubmit Etc_UTC (formData st) = Inr d
          \<and> due_date d = whole_minute_ISO (due_date task)
          \<and> reminder d = whole_minute_ISO (reminder task)
          \<and> (\<forall>tz. map_option (Date_parse tz) (due_date d)
                      = map_option whole_minute (due_date task)
                   \<and> map_option (Date_parse tz) (reminder d)
                      = map_option whole_minute (reminder task))"
    if run: "TaskForm_run st0 evs = Some st" and quiet: "\<forall>e \<in> set evs. \<not> touches_dates e"
    for evs st
  proof -
    have "due_date (formData st) = due" "reminder (formData st) = rem"
      using run_keeps_dates [OF run quiet] f0 by simp_all
    then show ?thesis
      by (simp add: handleSubmit_def due(2) rem(2) whole_minute_ISO_instant [OF assms(1)]
          whole_minute_ISO_instant [OF assms(2)])
  qed
  moreover have "whole_minute (Date t) = Date t" if "t mod msPerMinute = 0" for t
    using that by (simp add: whole_minute_def)
  ultimately show ?thesis using init by blast
qed

theorem edit_round_trip_UTC_witness:
  "four_digit_year (Some (Date 1705314630123))
   \<and> TaskForm_init (Some \<lparr>title = ''Pay rent'', description = [], category = ''Finance'',
        priority = ''High'', due_date = Some (Date 1705314630123), reminder = None\<rparr>)
     = Inr \<lparr>formData = \<lparr>title = ''Pay rent'', description = [], category = ''Finance'',
              priority = ''High'', due_date = ''2024-01-15T10:30'', reminder = []\<rparr>,
            availableCategories =
              [''General'', ''Work'', ''Personal'', ''Health'', ''Shopping'', ''Finance''],
            showNewCategory = False, newCategory = []\<rparr>
   \<and> (\<exists>d. handleSubmit Etc_UTC \<lparr>title = ''Pay the rent'', description = [], category = ''Finance'',
              priority = ''High'', due_date = ''2024-01-15T10:30'', reminder = []\<rparr> = Inr d
          \<and> due_date d = Some ''2024-01-15T10:30:00.000Z'' \<and> reminder d = None
          \<and> map_option (Date_parse Etc_GMT_minus_1) (due_date d) = Some (Date 1705314600000))"
proof -
  let ?task = "\<lparr>title = ''Pay rent'', description = [], category = ''Finance'',
        priority = ''High'', due_date = Some (Date 1705314630123), reminder = None\<rparr>"
  let ?mounted = "\<lparr>formData = \<lparr>title = ''Pay rent'', description = [], category = ''Finance'',
              priority = ''High'', due_date = ''2024-01-15T10:30'', reminder = []\<rparr>,
            availableCategories =
              [''General'', ''Work'', ''Personal'', ''Health'', ''Shopping'', ''Finance''],
            showNewCategory = False, newCategory = []\<rparr>"
  let ?edited = "\<lparr>formData = \<lparr>title = ''Pay the rent'', description = [], category = ''Finance'',
              priority = ''High'', due_date = ''2024-01-15T10:30'', reminder = []\<rparr>,
            availableCategories =
              [''General'', ''Work'', ''Personal'', ''Health'', ''Shopping'', ''Finance''],
            showNewCategory = False, newCategory = []\<rparr>"
  have h1: "four_digit_year (due_date ?task)" by code_simp
  have h2: "four_digit_year (reminder ?task)" by code_simp
  have init: "TaskForm_init (Some ?task) = Inr ?mounted" by code_simp
  have run: "TaskForm_run ?mounted [ChangeTitle ''Pay the rent''] = Some ?edited" by simp
  have quiet: "\<forall>e \<in> set [ChangeTitle ''Pay the rent'']. \<not> touches_dates e" by simp
  have w: "whole_minute_ISO (Some (Date 1705314630123)) = Some ''2024-01-15T10:30:00.000Z''"
    "whole_minute_ISO None = None"
    "whole_minute (Date 1705314630123) = Date 1705314600000"
    by code_simp+
  from edit_round_trip_UTC [OF h1 h2] init
  have "\<forall>evs st. TaskForm_run ?mounted evs = Some st \<longrightarrow> (\<forall>e \<in> set evs. \<not> touches_dates e) \<longrightarrow>
          (\<exists>d. handleSubmit Etc_UTC (formData st) = Inr d
              \<and> due_date d = whole_minute_ISO (due_date ?task)
              \<and> reminder d = whole_minute_ISO (reminder ?task)
              \<and> (\<forall>tz. map_option (Date_parse tz) (due_date d)
                          = map_option whole_minute (due_date ?task)
                       \<and> map_option (Date_parse tz) (reminder d)
                          = map_option whole_minute (reminder ?task)))"
    by auto
  with run quiet have "\<exists>d. handleSubmit Etc_UTC (formData ?edited) = Inr d
      \<and> due_date d = whole_minute_ISO (due_date ?task)
      \<and> reminder d = whole_minute_ISO (reminder ?task)
      \<and> (\<forall>tz. map_option (Date_parse tz) (due_date d)
                  = map_option whole_minute (due_date ?task)
               \<and> map_option (Date_parse tz) (reminder d)
                  = map_option whole_minute (reminder ?task))"
    by blast
  then obtain d where d: "handleSubmit Etc_UTC (formData ?edited) = Inr d"
    "due_date d = whole_minute_ISO (due_date ?task)"
    "reminder d = whole_minute_ISO (reminder ?task)"
    "map_option (Date_parse Etc_GMT_minus_1) (due_date d) = map_option whole_minute (due_date ?task)"
    by blast
  have "handleSubmit Etc_UTC \<lparr>title = ''Pay the rent'', description = [],
        category = ''Finance'', priority = ''High'', due_date = ''2024-01-15T10:30'',
        reminder = []\<rparr> = Inr d
      \<and> due_date d = Some ''2024-01-15T10:30:00.000Z'' \<and> reminder d = None
      \<and> map_option (Date_parse Etc_GMT_minus_1) (due_date d) = Some (Date 1705314600000)"
    using d by (simp add: w)
  then have "\<exists>d. handleSubmit Etc_UTC \<lparr>title = ''Pay the rent'', description = [],
        category = ''Finance'', priority = ''High'', due_date = ''2024-01-15T10:30'',
        reminder = []\<rparr> = Inr d
      \<and> due_date d = Some ''2024-01-15T10:30:00.000Z'' \<and> reminder d = None
      \<and> map_option (Date_parse Etc_GMT_minus_1) (due_date d) = Some (Date 1705314600000)"
    by (rule exI)
  moreover have "four_digit_year (Some (Date 1705314630123))" using h1 by simp
  ultimately show ?thesis using init by blast
qed

text \<open>
  C1 as stated fails in two ways. In a host one hour east of UTC, a due date stored as
  2024-01-15T10:30:00.000Z is shown as \<^verbatim>\<open>2024-01-15T10:30\<close>, which \<^verbatim>\<open>new Date\<close> reads as
  local time: the form submits 2024-01-15T09:30:00.000Z, an instant one hour earlier; in
  New York it submits 2024-01-15T15:30:00.000Z, five hours later.
  And in a UTC host a due date stored as 2024-01-15T10:30:30.123Z comes back as
  2024-01-15T10:30:00.000Z.
\<close>

theorem edit_round_trip_shifts:
  "toISOString (Date 1705314600000) = Inr ''2024-01-15T10:30:00.000Z''
   \<and> initial_date (Some (Date 1705314600000)) = Inr ''2024-01-15T10:30''
   \<and> handleSubmit Etc_GMT_minus_1 \<lparr>title = ''Pay rent'', description = [], category = ''Finance'',
        priority = ''High'', due_date = ''2024-01-15T10:30'', reminder = []\<rparr>
      = Inr \<lparr>title = ''Pay rent'', description = [], category = ''Finance'',
             priority = ''High'', due_date = Some ''2024-01-15T09:30:00.000Z'', reminder = None\<rparr>
   \<and> Date_parse Etc_GMT_minus_1 ''2024-01-15T09:30:00.000Z'' = Date 1705311000000
   \<and> handleSubmit America_New_York \<lparr>title = ''Pay rent'', description = [], category = ''Finance'',
        priority = ''High'', due_date = ''2024-01-15T10:30'', reminder = []\<rparr>
      = Inr \<lparr>title = ''Pay rent'', description = [], category = ''Finance'',
             priority = ''High'', due_date = Some ''2024-01-15T15:30:00.000Z'', reminder = None\<rparr>
   \<and> toISOString (Date 1705314630123) = Inr ''2024-01-15T10:30:30.123Z''
   \<and> initial_date (Some (Date 1705314630123)) = Inr ''2024-01-15T10:30''
   \<and> handleSubmit Etc_UTC \<lparr>title = ''Pay rent'', description = [], category = ''Finance'',
        priority = ''High'', due_date = ''2024-01-15T10:30'', reminder = []\<rparr>
      = Inr \<lparr>title = ''Pay rent'', description = [], category = ''Finance'',
             priority = ''High'', due_date = Some ''2024-01-15T10:30:00.000Z'', reminder = None\<rparr>"
  by code_simp

subsection \<open>Title, priority and category\<close>

lemma handleSubmit_passes_fields:
  "handleSubmit tz fd = Inr d \<Longrightarrow>
     title d = title fd \<and> description d = description fd
     \<and> category d = category fd \<and> priority d = priority fd"
  by (auto simp: handleSubmit_def split: sum.splits)

text \<open>The \<^verbatim>\<open>required\<close> attribute keeps the empty title out, and nothing else.\<close>

lemma submitted_title_not_empty: "TaskForm_submit tz st = onSubmit d \<Longrightarrow> title d \<noteq> []"
  using handleSubmit_passes_fields [of tz "formData st" d]
  by (auto simp: TaskForm_submit_def split: if_splits sum.splits)

text \<open>
  C2, at a title of three spaces typed into the form of a new task: the submission is
  not blocked, and \<^verbatim>\<open>onSubmit\<close> receives the title as typed, which is empty after
  trimming.
\<close>

theorem whitespace_title_is_submitted:
  "(case TaskForm_init None of
      Inr st0 \<Rightarrow> TaskForm_submit Etc_UTC (TaskForm_handle (ChangeTitle ''   '') st0)
    | Inl e \<Rightarrow> Threw e)
   = onSubmit \<lparr>title = ''   '', description = [], category = ''General'',
               priority = ''Medium'', due_date = None, reminder = None\<rparr>
   \<and> trim ''   '' = []"
  by code_simp

lemma handle_keeps_priority:
  "offered st e \<Longrightarrow> priority (formData st) \<in> set priorities \<Longrightarrow>
     priority (formData (TaskForm_handle e st)) \<in> set priorities"
  by (cases e)
     (simp_all add: handleAddCategory_def TaskForm_fetchCategories_def Let_def split: sum.splits)

lemma handle_keeps_category:
  "\<not> picks_category e \<Longrightarrow> category (formData (TaskForm_handle e st)) = category (formData st)"
  by (cases e) (simp_all add: TaskForm_fetchCategories_def Let_def split: sum.splits)

lemma run_keeps_priority:
  "TaskForm_run st evs = Some st' \<Longrightarrow> priority (formData st) \<in> set priorities \<Longrightarrow>
     priority (formData st') \<in> set priorities"
proof (induction evs arbitrary: st)
  case Nil
  then show ?case by simp
next
  case (Cons e evs)
  from Cons.prems(1) have e: "offered st e"
    and run: "TaskForm_run (TaskForm_handle e st) evs = Some st'"
    by (simp_all split: if_splits)
  show ?case
    using Cons.IH [OF run] handle_keeps_priority [OF e Cons.prems(2)] by simp
qed

lemma run_keeps_category:
  "TaskForm_run st evs = Some st' \<Longrightarrow> \<forall>e \<in> set evs. \<not> picks_category e \<Longrightarrow>
     category (formData st') = category (formData st)"
proof (induction evs arbitrary: st)
  case Nil
  then show ?case by simp
next
  case (Cons e evs)
  from Cons.prems(1) have run: "TaskForm_run (TaskForm_handle e st) evs = Some st'"
    by (simp split: if_splits)
  from Cons.prems(2) have "\<not> picks_category e" "\<forall>e \<in> set evs. \<not> picks_category e"
    by simp_all
  with Cons.IH [OF run] handle_keeps_category [of e st] show ?case by simp
qed

text \<open>
  C6. The form of a new task mounts with category General and priority Medium. The
  priority select offers exactly Low, Medium and High. So whatever the user does, the
  data a submission hands to \<^verbatim>\<open>onSubmit\<close> has one of these three priorities, and has
  category General when the user neither picked nor added a category.
\<close>

theorem new_task_defaults:
  "\<exists>st0. TaskForm_init None = Inr st0
      \<and> category (formData st0) = ''General''
      \<and> priority (formData st0) = ''Medium''
      \<and> priorities = [''Low'', ''Medium'', ''High'']
      \<and> (\<forall>st v. offered st (ChangePriority v) \<longleftrightarrow> v \<in> {''Low'', ''Medium'', ''High''})
      \<and> (\<forall>evs st d. TaskForm_run st0 evs = Some st \<longrightarrow> TaskForm_submit tz st = onSubmit d \<longrightarrow>
            priority d \<in> {''Low'', ''Medium'', ''High''}
            \<and> ((\<forall>e \<in> set evs. \<not> picks_category e) \<longrightarrow> category d = ''General''))"
proof -
  obtain st0 where init: "TaskForm_init None = Inr st0"
    and c0: "category (formData st0) = ''General''"
    and p0: "priority (formData st0) = ''Medium''"
    by (simp add: TaskForm_init_def initial_date_def or_else_def truthy_def)
  have off: "offered st (ChangePriority v) \<longleftrightarrow> v \<in> {''Low'', ''Medium'', ''High''}" for st v
    by (simp add: priorities_def)
  have sub: "priority d \<in> {''Low'', ''Medium'', ''High''}
      \<and> ((\<forall>e \<in> set evs. \<not> picks_category e) \<longrightarrow> category d = ''General'')"
    if run: "TaskForm_run st0 evs = Some st" and d: "TaskForm_submit tz st = onSubmit d"
    for evs st d
  proof -
    from d have h: "handleSubmit tz (formData st) = Inr d"
      by (auto simp: TaskForm_submit_def split: if_splits sum.splits)
    have "priority (formData st) \<in> set priorities"
      using run_keeps_priority [OF run] p0 by (simp add: priorities_def)
    then have "priority d \<in> {''Low'', ''Medium'', ''High''}"
      using handleSubmit_passes_fields [OF h] by (simp add: priorities_def)
    moreover have "category d = ''General''" if "\<forall>e \<in> set evs. \<not> picks_category e"
      using run_keeps_category [OF run that] c0 handleSubmit_passes_fields [OF h] by simp
    ultimately show ?thesis by blast
  qed
  show ?thesis
    using init c0 p0 off sub by (intro exI [of _ st0]) (simp add: priorities_def)
qed

theorem new_task_defaults_witness:
  "TaskForm_run
     \<lparr>formData = \<lparr>title = [], description = [], category = ''General'', priority = ''Medium'',
                  due_date = [], reminder = []\<rparr>,
      availableCategories = [''General'', ''Work'', ''Personal'', ''Health'', ''Shopping'', ''Finance''],
      showNewCategory = False, newCategory = []\<rparr>
     [ChangeTitle ''Buy milk'', ChangePriority ''Low'']
   = Some \<lparr>formData = \<lparr>title = ''Buy milk'', description = [], category = ''General'',
                  priority = ''Low'', due_date = [], reminder = []\<rparr>,
      availableCategories = [''General'', ''Work'', ''Personal'', ''Health'', ''Shopping'', ''Finance''],
      showNewCategory = False, newCategory = []\<rparr>
   \<and> TaskForm_submit Etc_UTC
     \<lparr>formData = \<lparr>title = ''Buy milk'', description = [], category = ''General'',
                  priority = ''Low'', due_date = [], reminder = []\<rparr>,
      availableCategories = [''General'', ''Work'', ''Personal'', ''Health'', ''Shopping'', ''Finance''],
      showNewCategory = False, newCategory = []\<rparr>
   = onSubmit \<lparr>title = ''Buy milk'', description = [], category = ''General'',
               priority = ''Low'', due_date = None, reminder = None\<rparr>
   \<and> category \<lparr>title = ''Buy milk'', description = [], category = ''General'',
               priority = ''Low'', due_date = None :: string option, reminder = None\<rparr> = ''General''"
proof -
  let ?mounted = "\<lparr>formData = \<lparr>title = [], description = [], category = ''General'',
                  priority = ''Medium'', due_date = [], reminder = []\<rparr>,
      availableCategories = [''General'', ''Work'', ''Personal'', ''Health'', ''Shopping'', ''Finance''],
      showNewCategory = False, newCategory = []\<rparr>"
  let ?filled = "\<lparr>formData = \<lparr>title = ''Buy milk'', description = [], category = ''General'',
                  priority = ''Low'', due_date = [], reminder = []\<rparr>,
      availableCategories = [''General'', ''Work'', ''Personal'', ''Health'', ''Shopping'', ''Finance''],
      showNewCategory = False, newCategory = []\<rparr>"
  let ?data = "\<lparr>title = ''Buy milk'', description = [], category = ''General'',
               priority = ''Low'', due_date = None :: string option, reminder = None\<rparr>"
  have init: "TaskForm_init None = Inr ?mounted" by code_simp
  have run: "TaskForm_run ?mounted [ChangeTitle ''Buy milk'', ChangePriority ''Low''] = Some ?filled"
    by (simp add: priorities_def)
  have sub: "TaskForm_submit Etc_UTC ?filled = onSubmit ?data" by code_simp
  have quiet: "\<forall>e \<in> set [ChangeTitle ''Buy milk'', ChangePriority ''Low'']. \<not> picks_category e"
    by simp
  from new_task_defaults [of Etc_UTC] init
  have "\<forall>evs st d. TaskForm_run ?mounted evs = Some st \<longrightarrow> TaskForm_submit Etc_UTC st = onSubmit d \<longrightarrow>
          priority d \<in> {''Low'', ''Medium'', ''High''}
          \<and> ((\<forall>e \<in> set evs. \<not> picks_category e) \<longrightarrow> category d = ''General'')"
    by auto
  with run sub quiet have "category ?data = ''General''" by blast
  with run sub show ?thesis by simp
qed

subsection \<open>The category list of the form\<close>

lemma handle_keeps_distinct:
  "distinct (availableCategories st) \<Longrightarrow> distinct (availableCategories (TaskForm_handle e st))"
  by (cases e)
     (simp_all add: handleAddCategory_def TaskForm_fetchCategories_def Let_def distinct_new_Set
        split: sum.splits)

lemma run_keeps_distinct:
  "TaskForm_run st evs = Some st' \<Longrightarrow> distinct (availableCategories st) \<Longrightarrow>
     distinct (availableCategories st')"
proof (induction evs arbitrary: st)
  case Nil
  then show ?case by simp
next
  case (Cons e evs)
  from Cons.prems(1) have run: "TaskForm_run (TaskForm_handle e st) evs = Some st'"
    by (simp split: if_splits)
  show ?case
    using Cons.IH [OF run] handle_keeps_distinct [OF Cons.prems(2)] by simp
qed

lemma init_distinct: "TaskForm_init task = Inr st0 \<Longrightarrow> distinct (availableCategories st0)"
  by (auto simp: TaskForm_init_def split: sum.splits)

text \<open>
  C10. The category list of a mounted form has no duplicates, whatever sequence of
  events follows: every handler keeps a list without duplicates so, the list set by
  \<^verbatim>\<open>fetchCategories\<close> comes out of a \<^verbatim>\<open>Set\<close>, and \<^verbatim>\<open>handleAddCategory\<close> appends the
  trimmed name only when it is not empty and not yet in the list. The dashboard's own
  list, set by its \<^verbatim>\<open>fetchCategories\<close>, has no duplicates either.
\<close>

theorem availableCategories_distinct:
  "(TaskForm_init task = Inr st0 \<longrightarrow> TaskForm_run st0 evs = Some st \<longrightarrow>
      distinct (availableCategories st))
   \<and> (distinct (availableCategories st') \<longrightarrow>
        distinct (availableCategories (TaskForm_handle e st')))
   \<and> distinct (availableCategories (TaskForm_fetchCategories (Inr userCategories) st'))
   \<and> availableCategories (handleAddCategory st') =
       (if trim (newCategory st') \<noteq> [] \<and> trim (newCategory st') \<notin> set (availableCategories st')
        then availableCategories st' @ [trim (newCategory st')]
        else availableCategories st')
   \<and> distinct (Dashboard_fetchCategories response old)"
proof -
  have "distinct (Dashboard_fetchCategories response old)"
    by (cases response) (simp_all add: Dashboard_fetchCategories_def distinct_new_Set)
  moreover have "distinct (availableCategories (TaskForm_fetchCategories (Inr userCategories) st'))"
    by (simp add: TaskForm_fetchCategories_def distinct_new_Set)
  moreover have "availableCategories (handleAddCategory st') =
       (if trim (newCategory st') \<noteq> [] \<and> trim (newCategory st') \<notin> set (availableCategories st')
        then availableCategories st' @ [trim (newCategory st')]
        else availableCategories st')"
    by (simp add: handleAddCategory_def truthy_def Let_def)
  ultimately show ?thesis
    using run_keeps_distinct [of st0 evs st] init_distinct [of task st0]
      handle_keeps_distinct [of st' e]
    by blast
qed

theorem availableCategories_distinct_witness:
  "TaskForm_run
     \<lparr>formData = \<lparr>title = [], description = [], category = ''General'', priority = ''Medium'',
                  due_date = [], reminder = []\<rparr>,
      availableCategories = [''General'', ''Work'', ''Personal'', ''Health'', ''Shopping'', ''Finance''],
      showNewCategory = False, newCategory = []\<rparr>
     [CategoriesSettled (Inr [''Work'', ''Garden'', ''Garden'']), ChangeCategory ''_add_new_'',
      ChangeNewCategory '' Garden '', ClickAdd, ChangeNewCategory ''Pets  '', ClickAdd]
   = Some \<lparr>formData = \<lparr>title = [], description = [], category = ''Pets'', priority = ''Medium'',
                  due_date = [], reminder = []\<rparr>,
      availableCategories = [''General'', ''Work'', ''Personal'', ''Health'', ''Shopping'',
                             ''Finance'', ''Garden'', ''Pets''],
      showNewCategory = False, newCategory = []\<rparr>
   \<and> distinct [''General'', ''Work'', ''Personal'', ''Health'', ''Shopping'',
               ''Finance'', ''Garden'', ''Pets'']"
proof -
  let ?mounted = "\<lparr>formData = \<lparr>title = [], description = [], category = ''General'',
                  priority = ''Medium'', due_date = [], reminder = []\<rparr>,
      availableCategories = [''General'', ''Work'', ''Personal'', ''Health'', ''Shopping'', ''Finance''],
      showNewCategory = False, newCategory = []\<rparr>"
  let ?evs = "[CategoriesSettled (Inr [''Work'', ''Garden'', ''Garden'']), ChangeCategory ''_add_new_'',
      ChangeNewCategory '' Garden '', ClickAdd, ChangeNewCategory ''Pets  '', ClickAdd]"
  let ?final = "\<lparr>formData = \<lparr>title = [], description = [], category = ''Pets'',
                  priority = ''Medium'', due_date = [], reminder = []\<rparr>,
      availableCategories = [''General'', ''Work'', ''Personal'', ''Health'', ''Shopping'',
                             ''Finance'', ''Garden'', ''Pets''],
      showNewCategory = False, newCategory = []\<rparr>"
  have init: "TaskForm_init None = Inr ?mounted" by code_simp
  have run: "TaskForm_run ?mounted ?evs = Some ?final" by code_simp
  have "distinct (availableCategories ?final)"
    using availableCategories_distinct [of None ?mounted ?evs ?final] init run by blast
  then have "distinct [''General'', ''Work'', ''Personal'', ''Health'', ''Shopping'',
               ''Finance'', ''Garden'', ''Pets'']"
    by simp
  with run show ?thesis by blast
qed

end
